theory Spec2Isabelle
  imports Main "HOL-Library.Word" "HOL-Library.Sublist"
begin

section \<open>Bytes, stream characters and failures\<close>

text \<open>
  The adapters of \<^verbatim>\<open>lz4_stream.h\<close> are two \<^verbatim>\<open>std::streambuf\<close> subclasses:
  \<^verbatim>\<open>output_buffer\<close> (compressing sink) and \<^verbatim>\<open>input_buffer\<close> (decompressing
  source). A \<^verbatim>\<open>char\<close> is a byte; \<^verbatim>\<open>int_type\<close> is \<^verbatim>\<open>int\<close>, with
  \<^verbatim>\<open>traits_type::eof()\<close> being \<open>-1\<close> and \<^verbatim>\<open>to_int_type\<close> the unsigned value.
\<close>

type_synonym byte = "8 word"

definition eof :: int where
  "eof = - 1"

definition to_int_type :: "byte \<Rightarrow> int" where
  "to_int_type c = uint c"

definition to_char_type :: "int \<Rightarrow> byte" where
  "to_char_type i = word_of_int i"

text \<open>
  A \<^verbatim>\<open>throw std::runtime_error{error}\<close> is the failure \<open>Runtime_error\<close> with its
  message; a failed \<^verbatim>\<open>assert\<close> (assertions compiled in) is \<open>Assertion_failed\<close>.
  A throwing member function returns \<open>Inl\<close> of the failure and of the object as it is
  at the throw.
\<close>

datatype failure = Runtime_error string | Assertion_failed

section \<open>The frame encoder, as the adapter sees it\<close>

text \<open>
  The LZ4 frame API is an external collaborator. Each operation returns either an error
  code, here the text that \<^verbatim>\<open>LZ4F_getErrorName\<close> gives for it, or the bytes it put
  into the destination buffer together with the updated session.
  The second argument of begin, update and end is \<^verbatim>\<open>dstCapacity\<close>.
\<close>

record 'e encoder =
  LZ4F_compressBound :: "nat \<Rightarrow> nat"
  LZ4F_createCompressionContext :: "string + 'e"
  LZ4F_compressBegin :: "'e \<Rightarrow> nat \<Rightarrow> string + byte list \<times> 'e"
  LZ4F_compressUpdate :: "'e \<Rightarrow> nat \<Rightarrow> byte list \<Rightarrow> string + byte list \<times> 'e"
  LZ4F_compressEnd :: "'e \<Rightarrow> nat \<Rightarrow> string + byte list \<times> 'e"

text \<open>The calls made to the encoder, in order; \<open>Update\<close> carries the source span.\<close>

datatype enc_call = Create | Begin | Update "byte list" | End | Free

section \<open>The compressing sink adapter: \<^verbatim>\<open>output_buffer\<close>\<close>

text \<open>
  \<open>m_sink\<close> holds the bytes written to the sink so far (\<^verbatim>\<open>m_sink.write\<close> appends).
  \<open>m_sourceBuffer\<close> is the \<^verbatim>\<open>std::array<char, SrcBufSize>\<close>; \<open>pptr\<close> and
  \<open>epptr\<close> are the put-area pointers as offsets from \<^verbatim>\<open>pbase()\<close>, which is the start
  of the array. Of \<^verbatim>\<open>m_destinationBuffer\<close> only the capacity matters: its contents are
  overwritten by every encoder call and copied to the sink at once.
\<close>

record 'e output_buffer =
  m_sink :: "byte list"
  m_sourceBuffer :: "byte list"
  pptr :: nat
  epptr :: nat
  m_destinationBuffer_capacity :: nat
  m_context :: 'e
  m_closed :: bool
  calls :: "enc_call list"

text \<open>
  \<^verbatim>\<open>static_cast<std::int32_t>(pptr() - pbase())\<close>, \<^verbatim>\<open>pbump(int)\<close>, and the conversion
  of the \<^verbatim>\<open>int32_t\<close> to the \<^verbatim>\<open>size_t\<close> parameter \<^verbatim>\<open>srcSize\<close>.
\<close>

definition to_int32 :: "nat \<Rightarrow> int" where
  "to_int32 n = sint (word_of_nat n :: 32 word)"

definition pbump :: "int \<Rightarrow> 'e output_buffer \<Rightarrow> 'e output_buffer" where
  "pbump n s = s\<lparr>pptr := nat (int (pptr s) + n)\<rparr>"

definition to_size_t :: "int \<Rightarrow> nat" where
  "to_size_t i = nat (i mod 2 ^ 64)"

definition CompressAndWrite ::
  "'e encoder \<Rightarrow> 'e output_buffer \<Rightarrow> failure \<times> 'e output_buffer + 'e output_buffer" where
  "CompressAndWrite enc s =
     (if m_closed s then Inl (Assertion_failed, s)
      else
        let orig_size = to_int32 (pptr s);
            s1 = pbump (- orig_size) s;
            src = take (to_size_t orig_size) (m_sourceBuffer s1);
            s2 = s1\<lparr>calls := calls s1 @ [Update src]\<rparr>
        in case LZ4F_compressUpdate enc (m_context s2) (m_destinationBuffer_capacity s2) src of
             Inl name \<Rightarrow> Inl (Runtime_error (''LZ4 compression failed: '' @ name), s2)
           | Inr (out, e) \<Rightarrow> Inr (s2\<lparr>m_context := e, m_sink := m_sink s2 @ out\<rparr>))"

definition WriteHeader ::
  "'e encoder \<Rightarrow> 'e output_buffer \<Rightarrow> failure \<times> 'e output_buffer + 'e output_buffer" where
  "WriteHeader enc s =
     (if m_closed s then Inl (Assertion_failed, s)
      else
        let s1 = s\<lparr>calls := calls s @ [Begin]\<rparr>
        in case LZ4F_compressBegin enc (m_context s1) (m_destinationBuffer_capacity s1) of
             Inl name \<Rightarrow> Inl (Runtime_error (''Failed to start LZ4 compression: '' @ name), s1)
           | Inr (out, e) \<Rightarrow> Inr (s1\<lparr>m_context := e, m_sink := m_sink s1 @ out\<rparr>))"

definition WriteFooter ::
  "'e encoder \<Rightarrow> 'e output_buffer \<Rightarrow> failure \<times> 'e output_buffer + 'e output_buffer" where
  "WriteFooter enc s =
     (if m_closed s then Inl (Assertion_failed, s)
      else
        let s1 = s\<lparr>calls := calls s @ [End]\<rparr>
        in case LZ4F_compressEnd enc (m_context s1) (m_destinationBuffer_capacity s1) of
             Inl name \<Rightarrow> Inl (Runtime_error (''Failed to end LZ4 compression: '' @ name), s1)
           | Inr (out, e) \<Rightarrow> Inr (s1\<lparr>m_context := e, m_sink := m_sink s1 @ out\<rparr>))"

text \<open>
  The constructor. Its first argument after the encoder is the storage of
  \<open>m_sourceBuffer\<close> as the constructor finds it (the array is default-initialised, so
  its \<^verbatim>\<open>SrcBufSize\<close> chars are indeterminate); \<^verbatim>\<open>SrcBufSize\<close> is its length.
  The member initialiser \<^verbatim>\<open>m_destinationBuffer{LZ4F_compressBound(...)}\<close> is a
  list-initialisation of a \<^verbatim>\<open>std::vector<char>\<close>: the vector gets one element, the
  bound narrowed to \<^verbatim>\<open>char\<close>, and not as many elements as the bound says. The
  \<^verbatim>\<open>capacity()\<close> that every encoder call is given is therefore 1.
  \<^verbatim>\<open>setp(base, base + size - 1)\<close> leaves one char of the array outside the put area.
  A constructor that throws leaves no object: what remains is the sink and the calls
  made to the encoder.
\<close>

definition output_buffer_ctor ::
  "'e encoder \<Rightarrow> byte list \<Rightarrow> byte list
     \<Rightarrow> failure \<times> byte list \<times> enc_call list + 'e output_buffer" where
  "output_buffer_ctor enc mem sink =
     (case LZ4F_createCompressionContext enc of
        Inl name \<Rightarrow>
          Inl (Runtime_error (''Failed to create LZ4 compression context: '' @ name),
               sink, [Create])
      | Inr ctx \<Rightarrow>
          let s = \<lparr>m_sink = sink, m_sourceBuffer = mem, pptr = 0, epptr = length mem - 1,
                   m_destinationBuffer_capacity = 1,
                   m_context = ctx, m_closed = False, calls = [Create]\<rparr>
          in case WriteHeader enc s of
               Inl (f, s') \<Rightarrow> Inl (f, m_sink s', calls s')
             | Inr s' \<Rightarrow> Inr s')"

text \<open>\<^verbatim>\<open>overflow\<close>, \<^verbatim>\<open>sync\<close> and \<^verbatim>\<open>Close\<close>.\<close>

definition overflow ::
  "'e encoder \<Rightarrow> int \<Rightarrow> 'e output_buffer
     \<Rightarrow> failure \<times> 'e output_buffer + int \<times> 'e output_buffer" where
  "overflow enc iCharacter s =
     (if \<not> pptr s \<le> epptr s then Inl (Assertion_failed, s)
      else
        let s1 = s\<lparr>m_sourceBuffer := (m_sourceBuffer s)[pptr s := to_char_type iCharacter]\<rparr>;
            s2 = pbump 1 s1
        in case CompressAndWrite enc s2 of
             Inl fs \<Rightarrow> Inl fs
           | Inr s3 \<Rightarrow> Inr (iCharacter, s3))"

definition sync ::
  "'e encoder \<Rightarrow> 'e output_buffer \<Rightarrow> failure \<times> 'e output_buffer + int \<times> 'e output_buffer" where
  "sync enc s =
     (case CompressAndWrite enc s of
        Inl fs \<Rightarrow> Inl fs
      | Inr s1 \<Rightarrow> Inr (0, s1))"

definition Close ::
  "'e encoder \<Rightarrow> 'e output_buffer \<Rightarrow> failure \<times> 'e output_buffer + 'e output_buffer" where
  "Close enc s =
     (if m_closed s then Inr s
      else case sync enc s of
             Inl fs \<Rightarrow> Inl fs
           | Inr (r, s1) \<Rightarrow>
               (case WriteFooter enc s1 of
                  Inl fs \<Rightarrow> Inl fs
                | Inr s2 \<Rightarrow> Inr (s2\<lparr>calls := calls s2 @ [Free], m_closed := True\<rparr>)))"

text \<open>
  The entry points that \<^verbatim>\<open>std::streambuf\<close> puts in front of \<^verbatim>\<open>overflow\<close>:
  \<^verbatim>\<open>sputc\<close> stores the char while the put area has room and calls
  \<^verbatim>\<open>overflow\<close> otherwise; \<^verbatim>\<open>sputn\<close> is a sequence of \<^verbatim>\<open>sputc\<close> that stops when
  one of them returns \<^verbatim>\<open>eof\<close>.
\<close>

definition sputc ::
  "'e encoder \<Rightarrow> byte \<Rightarrow> 'e output_buffer
     \<Rightarrow> failure \<times> 'e output_buffer + int \<times> 'e output_buffer" where
  "sputc enc c s =
     (if pptr s < epptr s
      then Inr (to_int_type c, pbump 1 (s\<lparr>m_sourceBuffer := (m_sourceBuffer s)[pptr s := c]\<rparr>))
      else overflow enc (to_int_type c) s)"

fun sputn ::
  "'e encoder \<Rightarrow> byte list \<Rightarrow> 'e output_buffer
     \<Rightarrow> failure \<times> 'e output_buffer + 'e output_buffer" where
  "sputn enc [] s = Inr s"
| "sputn enc (c # cs) s =
     (case sputc enc c s of
        Inl fs \<Rightarrow> Inl fs
      | Inr (r, s1) \<Rightarrow> if r = eof then Inr s1 else sputn enc cs s1)"

text \<open>A sequence of \<open>n\<close> calls of \<^verbatim>\<open>Close\<close>, as an explicit call followed by destructors makes.\<close>

fun Close_times :: "'e encoder \<Rightarrow> nat \<Rightarrow> 'e output_buffer
     \<Rightarrow> failure \<times> 'e output_buffer + 'e output_buffer" where
  "Close_times enc 0 s = Inr s"
| "Close_times enc (Suc n) s =
     (case Close enc s of
        Inl fs \<Rightarrow> Inl fs
      | Inr s1 \<Rightarrow> Close_times enc n s1)"

text \<open>
  The put area of a constructed adapter: the array is not empty, its size fits the
  \<^verbatim>\<open>int32_t\<close> of \<^verbatim>\<open>CompressAndWrite\<close>, and \<^verbatim>\<open>epptr\<close> is one short of its end.
\<close>

definition put_area_ok :: "'e output_buffer \<Rightarrow> bool" where
  "put_area_ok s \<longleftrightarrow>
     0 < length (m_sourceBuffer s) \<and> length (m_sourceBuffer s) < 2 ^ 31
     \<and> epptr s = length (m_sourceBuffer s) - 1 \<and> pptr s \<le> epptr s"

section \<open>The frame decoder, as the adapter sees it\<close>

text \<open>
  \<^verbatim>\<open>LZ4F_decompress\<close> takes the session, the destination capacity (\<^verbatim>\<open>*dstSizePtr\<close> on
  entry) and the source span (\<^verbatim>\<open>srcBuffer\<close> with \<^verbatim>\<open>*srcSizePtr\<close> on entry). It returns
  an error code, or the number of source bytes it consumed (\<^verbatim>\<open>*srcSizePtr\<close> on return),
  the bytes it wrote to the destination (their number is \<^verbatim>\<open>*dstSizePtr\<close> on return) and
  the updated session.
\<close>

record 'd decoder =
  LZ4F_createDecompressionContext :: "string + 'd"
  LZ4F_decompress :: "'d \<Rightarrow> nat \<Rightarrow> byte list \<Rightarrow> string + nat \<times> byte list \<times> 'd"

section \<open>The decompressing source adapter: \<^verbatim>\<open>input_buffer\<close>\<close>

text \<open>
  The upstream \<^verbatim>\<open>std::istream\<close> is read by this adapter only, always with the same
  request size, so it is given by what its successive \<^verbatim>\<open>read\<close> calls deliver:
  \<open>m_source s i\<close> are the bytes that call number \<open>i\<close> extracts (cut to the size
  requested), and \<open>reads\<close> counts the calls made so far. \<open>dec_calls\<close> lists the source
  spans of the decoder calls made so far. The field \<open>m_dctx\<close> is the source's
  \<^verbatim>\<open>m_context\<close>. \<open>gptr\<close> and \<open>egptr\<close> are the get-area pointers as offsets into
  \<open>destinationBuffer\<close> (\<^verbatim>\<open>eback()\<close> is its start); the empty get area that the
  constructor sets up is \<open>gptr = egptr = 0\<close>.
\<close>

record 'd input_buffer =
  m_source :: "nat \<Rightarrow> byte list"
  reads :: nat
  sourceBuffer :: "byte list"
  destinationBuffer :: "byte list"
  m_offset :: nat
  m_sourceBufferSize :: nat
  m_dctx :: 'd
  gptr :: nat
  egptr :: nat
  dec_calls :: "byte list list"

definition input_buffer_ctor ::
  "'d decoder \<Rightarrow> (nat \<Rightarrow> byte list) \<Rightarrow> byte list \<Rightarrow> byte list
     \<Rightarrow> failure + 'd input_buffer" where
  "input_buffer_ctor dec iSource srcmem dstmem =
     (case LZ4F_createDecompressionContext dec of
        Inl name \<Rightarrow>
          Inl (Runtime_error (''Failed to create LZ4 decompression context: '' @ name))
      | Inr ctx \<Rightarrow>
          Inr \<lparr>m_source = iSource, reads = 0, sourceBuffer = srcmem,
               destinationBuffer = dstmem, m_offset = 0, m_sourceBufferSize = 0,
               m_dctx = ctx, gptr = 0, egptr = 0, dec_calls = []\<rparr>)"

text \<open>
  The first statement of the loop body: when the unconsumed region is empty,
  \<^verbatim>\<open>m_source.read(sourceBuffer.data(), sourceBuffer.size())\<close>, then
  \<^verbatim>\<open>m_sourceBufferSize = gcount()\<close> and \<^verbatim>\<open>m_offset = 0\<close>.
\<close>

definition refill :: "'d input_buffer \<Rightarrow> 'd input_buffer" where
  "refill s =
     (if m_offset s = m_sourceBufferSize s
      then let got = take (length (sourceBuffer s)) (m_source s (reads s))
           in s\<lparr>reads := Suc (reads s),
                sourceBuffer := got @ drop (length got) (sourceBuffer s),
                m_sourceBufferSize := length got,
                m_offset := 0\<rparr>
      else s)"

text \<open>
  \<^verbatim>\<open>m_sourceBufferSize - m_offset\<close> is a subtraction of \<^verbatim>\<open>size_t\<close>; the span offered to
  the decoder starts at \<^verbatim>\<open>sourceBuffer.data() + m_offset\<close> and has that length.
\<close>

definition size_t_sub :: "nat \<Rightarrow> nat \<Rightarrow> nat" where
  "size_t_sub a b = (if b \<le> a then a - b else a + 2 ^ 64 - b)"

definition src_span :: "'d input_buffer \<Rightarrow> byte list" where
  "src_span s =
     take (size_t_sub (m_sourceBufferSize s) (m_offset s)) (drop (m_offset s) (sourceBuffer s))"

text \<open>
  One pass through the body of \<^verbatim>\<open>while (writtenSize == 0)\<close>. It leaves the function
  by \<^verbatim>\<open>return traits_type::eof()\<close> or by the \<^verbatim>\<open>throw\<close>, or it ends with
  \<^verbatim>\<open>writtenSize\<close> set: to zero, and the loop goes round again, or to the number of
  bytes decoded, and the loop is left.
\<close>

datatype 'd loop_exit =
    Return_eof "'d input_buffer"
  | Throw failure "'d input_buffer"
  | Written nat "'d input_buffer"

datatype 'd iteration = Again "'d input_buffer" | Exit "'d loop_exit"

definition underflow_body :: "'d decoder \<Rightarrow> 'd input_buffer \<Rightarrow> 'd iteration" where
  "underflow_body dec s =
     (let s1 = refill s
      in if m_sourceBufferSize s1 = 0 then Exit (Return_eof s1)
         else
           let src = src_span s1;
               dest_size = length (destinationBuffer s1);
               s2 = s1\<lparr>dec_calls := dec_calls s1 @ [src]\<rparr>
           in case LZ4F_decompress dec (m_dctx s2) dest_size src of
                Inl name \<Rightarrow>
                  Exit (Throw (Runtime_error (''LZ4 decompression failed: '' @ name)) s2)
              | Inr (consumed, out, d) \<Rightarrow>
                  let writtenSize = length out;
                      s3 = s2\<lparr>m_dctx := d,
                              destinationBuffer := out @ drop writtenSize (destinationBuffer s2),
                              m_offset := m_offset s2 + consumed\<rparr>
                  in if writtenSize = 0 then Again s3 else Exit (Written writtenSize s3))"

partial_function (option) underflow_loop ::
  "'d decoder \<Rightarrow> 'd input_buffer \<Rightarrow> 'd loop_exit option" where
  "underflow_loop dec s =
     (case underflow_body dec s of
        Again s1 \<Rightarrow> underflow_loop dec s1
      | Exit r \<Rightarrow> Some r)"

text \<open>
  \<^verbatim>\<open>underflow\<close>: the loop, then \<^verbatim>\<open>setg\<close> on the decoded bytes and the first of them
  as the result. \<open>None\<close> is a loop that never ends.
\<close>

definition underflow ::
  "'d decoder \<Rightarrow> 'd input_buffer
     \<Rightarrow> (failure \<times> 'd input_buffer + int \<times> 'd input_buffer) option" where
  "underflow dec s =
     (case underflow_loop dec s of
        None \<Rightarrow> None
      | Some (Return_eof s1) \<Rightarrow> Some (Inr (eof, s1))
      | Some (Throw f s1) \<Rightarrow> Some (Inl (f, s1))
      | Some (Written writtenSize s1) \<Rightarrow>
          let s2 = s1\<lparr>gptr := 0, egptr := writtenSize\<rparr>
          in Some (Inr (to_int_type (destinationBuffer s2 ! gptr s2), s2)))"

text \<open>The state an iteration ends in, and the state after \<open>n\<close> iterations that all went round again.\<close>

fun iteration_state :: "'d iteration \<Rightarrow> 'd input_buffer" where
  "iteration_state (Again s) = s"
| "iteration_state (Exit (Return_eof s)) = s"
| "iteration_state (Exit (Throw f s)) = s"
| "iteration_state (Exit (Written n s)) = s"

fun after_iterations :: "'d decoder \<Rightarrow> nat \<Rightarrow> 'd input_buffer \<Rightarrow> 'd input_buffer option" where
  "after_iterations dec 0 s = Some s"
| "after_iterations dec (Suc n) s =
     (case underflow_body dec s of
        Again s1 \<Rightarrow> after_iterations dec n s1
      | Exit r \<Rightarrow> None)"

text \<open>
  The readers that \<^verbatim>\<open>std::streambuf\<close> puts in front of \<^verbatim>\<open>underflow\<close>:
  \<^verbatim>\<open>uflow\<close> (not overridden) calls \<^verbatim>\<open>underflow\<close> and, unless that gave \<^verbatim>\<open>eof\<close>,
  returns \<^verbatim>\<open>*gptr()\<close> and advances \<^verbatim>\<open>gptr\<close>; \<^verbatim>\<open>sbumpc\<close> takes the next char of the
  get area when there is one and calls \<^verbatim>\<open>uflow\<close> otherwise. \<open>read_to_end\<close> is a
  caller that takes chars with \<^verbatim>\<open>sbumpc\<close> until it gets \<^verbatim>\<open>eof\<close>.
\<close>

definition uflow ::
  "'d decoder \<Rightarrow> 'd input_buffer
     \<Rightarrow> (failure \<times> 'd input_buffer + int \<times> 'd input_buffer) option" where
  "uflow dec s =
     (case underflow dec s of
        None \<Rightarrow> None
      | Some (Inl fs) \<Rightarrow> Some (Inl fs)
      | Some (Inr (c, s1)) \<Rightarrow>
          if c = eof then Some (Inr (eof, s1))
          else Some (Inr (to_int_type (destinationBuffer s1 ! gptr s1),
                          s1\<lparr>gptr := Suc (gptr s1)\<rparr>)))"

definition sbumpc ::
  "'d decoder \<Rightarrow> 'd input_buffer
     \<Rightarrow> (failure \<times> 'd input_buffer + int \<times> 'd input_buffer) option" where
  "sbumpc dec s =
     (if gptr s < egptr s
      then Some (Inr (to_int_type (destinationBuffer s ! gptr s), s\<lparr>gptr := Suc (gptr s)\<rparr>))
      else uflow dec s)"

partial_function (option) read_to_end ::
  "'d decoder \<Rightarrow> 'd input_buffer \<Rightarrow> byte list
     \<Rightarrow> (failure \<times> 'd input_buffer + byte list \<times> 'd input_buffer) option" where
  "read_to_end dec s acc =
     (case sbumpc dec s of
        None \<Rightarrow> None
      | Some (Inl fs) \<Rightarrow> Some (Inl fs)
      | Some (Inr (c, s1)) \<Rightarrow>
          if c = eof then Some (Inr (acc, s1))
          else read_to_end dec s1 (acc @ [to_char_type c]))"

section \<open>Compressing a byte sequence and reading it back\<close>

text \<open>
  \<open>compress_all\<close>: construct the sink adapter over a sink, write \<open>S\<close>, close; the
  result is the sink. \<open>istream_of n z\<close> is a \<^verbatim>\<open>std::istream\<close> over the bytes \<open>z\<close>
  read \<open>n\<close> chars at a time: each \<^verbatim>\<open>read\<close> delivers the next \<open>n\<close> bytes, fewer at the
  end, none after it. \<open>decompress_all\<close>: construct the source adapter over such a
  stream and read it to the end.
\<close>

definition compress_all ::
  "'e encoder \<Rightarrow> byte list \<Rightarrow> byte list \<Rightarrow> byte list \<Rightarrow> failure + byte list" where
  "compress_all enc mem sink S =
     (case output_buffer_ctor enc mem sink of
        Inl (f, rest) \<Rightarrow> Inl f
      | Inr s \<Rightarrow>
          (case sputn enc S s of
             Inl (f, s1) \<Rightarrow> Inl f
           | Inr s1 \<Rightarrow>
               (case Close enc s1 of
                  Inl (f, s2) \<Rightarrow> Inl f
                | Inr s2 \<Rightarrow> Inr (m_sink s2))))"

definition istream_of :: "nat \<Rightarrow> byte list \<Rightarrow> nat \<Rightarrow> byte list" where
  "istream_of n z i = take n (drop (i * n) z)"

definition decompress_all ::
  "'d decoder \<Rightarrow> byte list \<Rightarrow> byte list \<Rightarrow> byte list \<Rightarrow> (failure + byte list) option" where
  "decompress_all dec srcmem dstmem z =
     (case input_buffer_ctor dec (istream_of (length srcmem) z) srcmem dstmem of
        Inl f \<Rightarrow> Some (Inl f)
      | Inr s \<Rightarrow>
          (case read_to_end dec s [] of
             None \<Rightarrow> None
           | Some (Inl (f, s1)) \<Rightarrow> Some (Inl f)
           | Some (Inr (out, s1)) \<Rightarrow> Some (Inr out)))"

text \<open>
  What the round trip asks of the codec. \<open>encode_frame\<close> is a whole frame made with the
  encoder, given a destination capacity: create, begin, one update for each span of a
  list, end. The codec is \<^emph>\<open>lossless\<close> for raw spans of up to \<open>n\<close> bytes, encoded
  into a destination of the capacity that \<^verbatim>\<open>LZ4F_compressBound\<close> declares for \<open>n\<close>,
  and a decoder output capacity \<open>m\<close> when there is a relation \<open>R d z p\<close>, read as:
  the decoder session \<open>d\<close> has still to consume the frame bytes \<open>z\<close> and to deliver
  the raw bytes \<open>p\<close>, such that
  \<^item> every frame over spans of at most \<open>n\<close> bytes is encoded without error, and a new
    decoder session stands in \<open>R\<close> to the frame and the concatenated spans;
  \<^item> a decoder call on any non-empty beginning of \<open>z\<close> succeeds, consumes no more than
    it was offered, delivers at most \<open>m\<close> bytes which begin \<open>p\<close>, consumes or
    delivers at least one byte, and stands in \<open>R\<close> to what is left;
  \<^item> when the whole frame is consumed nothing remains to be delivered.
\<close>

fun encode_updates ::
  "'e encoder \<Rightarrow> nat \<Rightarrow> 'e \<Rightarrow> byte list list \<Rightarrow> string + byte list \<times> 'e" where
  "encode_updates enc cap e [] = Inr ([], e)"
| "encode_updates enc cap e (c # cs) =
     (case LZ4F_compressUpdate enc e cap c of
        Inl name \<Rightarrow> Inl name
      | Inr (out, e1) \<Rightarrow>
          (case encode_updates enc cap e1 cs of
             Inl name \<Rightarrow> Inl name
           | Inr (outs, e2) \<Rightarrow> Inr (out @ outs, e2)))"

definition encode_frame :: "'e encoder \<Rightarrow> nat \<Rightarrow> byte list list \<Rightarrow> string + byte list" where
  "encode_frame enc cap cs =
     (case LZ4F_createCompressionContext enc of
        Inl name \<Rightarrow> Inl name
      | Inr e0 \<Rightarrow>
          (case LZ4F_compressBegin enc e0 cap of
             Inl name \<Rightarrow> Inl name
           | Inr (hdr, e1) \<Rightarrow>
               (case encode_updates enc cap e1 cs of
                  Inl name \<Rightarrow> Inl name
                | Inr (body, e2) \<Rightarrow>
                    (case LZ4F_compressEnd enc e2 cap of
                       Inl name \<Rightarrow> Inl name
                     | Inr (ftr, e3) \<Rightarrow> Inr (hdr @ body @ ftr)))))"

definition lossless_codec ::
  "'e encoder \<Rightarrow> 'd decoder \<Rightarrow> nat \<Rightarrow> nat \<Rightarrow> ('d \<Rightarrow> byte list \<Rightarrow> byte list \<Rightarrow> bool) \<Rightarrow> bool"
  where
  "lossless_codec enc dec n m R \<longleftrightarrow>
     (\<forall>cs. (\<forall>c \<in> set cs. length c \<le> n) \<longrightarrow>
        (\<exists>z d0. encode_frame enc (LZ4F_compressBound enc n) cs = Inr z
               \<and> LZ4F_createDecompressionContext dec = Inr d0 \<and> R d0 z (concat cs)))
   \<and> (\<forall>d z p span. R d z p \<and> span \<noteq> [] \<and> prefix span z \<longrightarrow>
        (\<exists>c out d1. LZ4F_decompress dec d m span = Inr (c, out, d1)
               \<and> c \<le> length span \<and> length out \<le> m \<and> prefix out p
               \<and> (0 < c \<or> out \<noteq> []) \<and> R d1 (drop c z) (drop (length out) p)))
   \<and> (\<forall>d p. R d [] p \<longrightarrow> p = [])"

text \<open>
  The state of the source adapter while it reads the frame bytes \<open>zz\<close> from
  \<open>istream_of\<close>: the decoder session has still to consume \<open>z\<close> and to deliver
  \<open>p\<close>, and \<open>z\<close> is the unconsumed region of the source buffer followed by what
  the upstream has not delivered yet.
\<close>

definition pull_inv ::
  "('d \<Rightarrow> byte list \<Rightarrow> byte list \<Rightarrow> bool) \<Rightarrow> nat \<Rightarrow> byte list
     \<Rightarrow> 'd input_buffer \<Rightarrow> byte list \<Rightarrow> byte list \<Rightarrow> bool" where
  "pull_inv R m zz s z p \<longleftrightarrow>
     R (m_dctx s) z p
     \<and> m_source s = istream_of (length (sourceBuffer s)) zz
     \<and> 0 < length (sourceBuffer s) \<and> length (destinationBuffer s) = m
     \<and> m_offset s \<le> m_sourceBufferSize s
     \<and> m_sourceBufferSize s \<le> length (sourceBuffer s)
     \<and> z = src_span s @ drop (reads s * length (sourceBuffer s)) zz"

text \<open>
  The spans that the sink adapter hands to the encoder when \<open>S\<close> is written on top of
  the pending bytes \<open>q\<close> and the adapter is then closed: a span each time the
  \<open>n\<close>-th byte arrives, and what is pending at the end.
\<close>

fun flushed_spans :: "nat \<Rightarrow> byte list \<Rightarrow> byte list \<Rightarrow> byte list list" where
  "flushed_spans n q [] = [q]"
| "flushed_spans n q (c # cs) =
     (if Suc (length q) < n then flushed_spans n (q @ [c]) cs
      else (q @ [c]) # flushed_spans n [] cs)"

section \<open>A small frame codec to run the adapters on\<close>

text \<open>
  A stand-in for the codec, used to evaluate the adapters on concrete inputs. The frame
  is a magic byte, then every raw byte preceded by the tag \<open>1\<close>, then the end mark
  \<open>0\<close>. The encoder session counts the update calls; every encoder operation fails when
  the destination capacity is too small for what it writes. The decoder takes one
  byte of its input per call.
\<close>

definition mock_encoder :: "nat encoder" where
  "mock_encoder =
     \<lparr>LZ4F_compressBound = (\<lambda>n. 2 * n + 2),
      LZ4F_createCompressionContext = Inr 0,
      LZ4F_compressBegin =
        (\<lambda>e cap. if cap < 1 then Inl ''ERROR_dstMaxSize_tooSmall'' else Inr ([76], e)),
      LZ4F_compressUpdate =
        (\<lambda>e cap src. if cap < 2 * length src then Inl ''ERROR_dstMaxSize_tooSmall''
                      else Inr (concat (map (\<lambda>b. [1, b]) src), Suc e)),
      LZ4F_compressEnd =
        (\<lambda>e cap. if cap < 1 then Inl ''ERROR_dstMaxSize_tooSmall'' else Inr ([0], e))\<rparr>"

datatype mock_stage = Magic | Tag | Data | Done

fun mock_decompress ::
  "mock_stage \<Rightarrow> nat \<Rightarrow> byte list \<Rightarrow> string + nat \<times> byte list \<times> mock_stage" where
  "mock_decompress d cap [] = Inr (0, [], d)"
| "mock_decompress Magic cap (b # bs) =
     (if b = 76 then Inr (1, [], Tag) else Inl ''ERROR_frameType_unknown'')"
| "mock_decompress Tag cap (b # bs) =
     (if b = 1 then Inr (1, [], Data)
      else if b = 0 then Inr (1, [], Done)
      else Inl ''ERROR_blockHeader_invalid'')"
| "mock_decompress Data cap (b # bs) =
     (if cap = 0 then Inr (0, [], Data) else Inr (1, [b], Tag))"
| "mock_decompress Done cap (b # bs) = Inl ''ERROR_frameDecoding_alreadyStarted''"

definition mock_decoder :: "mock_stage decoder" where
  "mock_decoder =
     \<lparr>LZ4F_createDecompressionContext = Inr Magic, LZ4F_decompress = mock_decompress\<rparr>"

text \<open>
  A second encoder, which stores the raw bytes as they are, without header or footer,
  and fails when they do not fit the destination.
\<close>

definition raw_encoder :: "nat encoder" where
  "raw_encoder =
     \<lparr>LZ4F_compressBound = (\<lambda>n. n),
      LZ4F_createCompressionContext = Inr 0,
      LZ4F_compressBegin = (\<lambda>e cap. Inr ([], e)),
      LZ4F_compressUpdate =
        (\<lambda>e cap src. if cap < length src then Inl ''ERROR_dstMaxSize_tooSmall''
                      else Inr (src, Suc e)),
      LZ4F_compressEnd = (\<lambda>e cap. Inr ([], e))\<rparr>"

text \<open>Encoders that report an error from one operation, and a decoder that makes no progress.\<close>

definition failing_begin_encoder :: "nat encoder" where
  "failing_begin_encoder =
     mock_encoder\<lparr>LZ4F_compressBegin := (\<lambda>e cap. Inl ''ERROR_allocation_failed'')\<rparr>"

definition failing_update_encoder :: "nat encoder" where
  "failing_update_encoder =
     mock_encoder\<lparr>LZ4F_compressUpdate := (\<lambda>e cap src. Inl ''ERROR_GENERIC'')\<rparr>"

definition failing_end_encoder :: "nat encoder" where
  "failing_end_encoder =
     mock_encoder\<lparr>LZ4F_compressEnd := (\<lambda>e cap. Inl ''ERROR_GENERIC'')\<rparr>"


text \<open>
  The relation of \<open>lossless_codec\<close> for the stand-in codec: what each decoder stage
  expects to find in front of it.
\<close>

definition mock_body :: "byte list \<Rightarrow> byte list" where
  "mock_body p = concat (map (\<lambda>b. [1, b]) p) @ [0]"

fun mock_rel :: "mock_stage \<Rightarrow> byte list \<Rightarrow> byte list \<Rightarrow> bool" where
  "mock_rel Magic z p \<longleftrightarrow> z = 76 # mock_body p"
| "mock_rel Tag z p \<longleftrightarrow> z = mock_body p"
| "mock_rel Data z p \<longleftrightarrow> (case p of [] \<Rightarrow> False | b # p1 \<Rightarrow> z = b # mock_body p1)"
| "mock_rel Done z p \<longleftrightarrow> z = [] \<and> p = []"

text \<open>Adapter states used as concrete inputs.\<close>

definition open_example :: "nat output_buffer" where
  "open_example =
     \<lparr>m_sink = [76], m_sourceBuffer = [0, 0, 0, 0], pptr = 0, epptr = 3,
      m_destinationBuffer_capacity = 1, m_context = 0, m_closed = False,
      calls = [Create, Begin]\<rparr>"

definition closed_example :: "nat output_buffer" where
  "closed_example =
     \<lparr>m_sink = [76, 0], m_sourceBuffer = [0, 0, 0, 0], pptr = 0, epptr = 3,
      m_destinationBuffer_capacity = 1, m_context = 1, m_closed = True,
      calls = [Create, Begin, Update [], End, Free]\<rparr>"

definition fresh_source :: "(nat \<Rightarrow> byte list) \<Rightarrow> mock_stage input_buffer" where
  "fresh_source iSource =
     \<lparr>m_source = iSource, reads = 0, sourceBuffer = [0, 0, 0, 0],
      destinationBuffer = [0, 0], m_offset = 0, m_sourceBufferSize = 0,
      m_dctx = Magic, gptr = 0, egptr = 0, dec_calls = []\<rparr>"

text \<open>
  Source adapters over a stream that holds nothing, over one frame of the stand-in
  codec, and over a frame with a damaged second byte.
\<close>

definition exhausted_example :: "mock_stage input_buffer" where
  "exhausted_example = (fresh_source (istream_of 4 []))\<lparr>reads := 1\<rparr>"

definition frame_example :: "mock_stage input_buffer" where
  "frame_example = fresh_source (istream_of 4 [76, 1, 65, 0])"

definition bad_frame_example :: "mock_stage input_buffer" where
  "bad_frame_example = fresh_source (istream_of 4 [76, 5])"


section \<open>Header first\<close>

text \<open>
  C2. When the constructor of the compressing sink adapter returns, nothing has been
  accepted into the raw buffer yet, and the bytes it appended to the sink are exactly
  those that the encoder's begin operation produced (the frame header) at the
  destination capacity the adapter has, which is 1; the encoder has been created and
  begun, and nothing else. This is the state every later write starts
  from, whether or not one ever comes.
\<close>

theorem header_first:
  assumes "output_buffer_ctor enc mem sink = Inr s"
  shows "\<exists>ctx hdr e. LZ4F_createCompressionContext enc = Inr ctx
           \<and> LZ4F_compressBegin enc ctx 1 = Inr (hdr, e)
           \<and> m_sink s = sink @ hdr \<and> pptr s = 0 \<and> m_context s = e
           \<and> calls s = [Create, Begin] \<and> \<not> m_closed s
           \<and> m_destinationBuffer_capacity s = 1"
  using assms
  by (auto simp: output_buffer_ctor_def WriteHeader_def Let_def
           split: sum.splits prod.splits if_splits)

theorem header_first_witness:
  "\<exists>s. output_buffer_ctor mock_encoder [0, 0, 0, 0] [7] = Inr s
     \<and> (\<exists>ctx hdr e. LZ4F_createCompressionContext mock_encoder = Inr ctx
           \<and> LZ4F_compressBegin mock_encoder ctx 1 = Inr (hdr, e)
           \<and> m_sink s = [7] @ hdr \<and> pptr s = 0 \<and> m_context s = e
           \<and> calls s = [Create, Begin] \<and> \<not> m_closed s
           \<and> m_destinationBuffer_capacity s = 1)"
proof -
  have h: "output_buffer_ctor mock_encoder [0, 0, 0, 0] [7] =
     Inr \<lparr>m_sink = [7, 76], m_sourceBuffer = [0, 0, 0, 0], pptr = 0, epptr = 3,
          m_destinationBuffer_capacity = 1, m_context = 0, m_closed = False,
          calls = [Create, Begin]\<rparr>"
    by (simp add: output_buffer_ctor_def WriteHeader_def mock_encoder_def)
  show ?thesis
    using h header_first [OF h] by blast
qed

section \<open>Facts about the sink adapter\<close>

lemma to_int32_small: "n < 2 ^ 31 \<Longrightarrow> to_int32 n = int n"
  unfolding to_int32_def
  by (simp add: signed_of_nat signed_take_bit_int_eq_self)

lemma to_size_t_int: "n < 2 ^ 31 \<Longrightarrow> to_size_t (int n) = n"
  unfolding to_size_t_def by simp

lemma to_int_type_not_eof: "to_int_type c \<noteq> eof"
proof -
  have "0 \<le> uint c" by (rule uint_nonnegative)
  then have "uint c \<noteq> - 1" by arith
  then show ?thesis by (simp add: to_int_type_def eof_def)
qed

lemma to_char_type_inverse: "to_char_type (to_int_type c) = c"
  by (simp add: to_int_type_def to_char_type_def)

text \<open>A flush of an open adapter, with the casts resolved.\<close>

lemma CompressAndWrite_open:
  assumes "\<not> m_closed s" "pptr s < 2 ^ 31"
  shows "CompressAndWrite enc s =
     (case LZ4F_compressUpdate enc (m_context s) (m_destinationBuffer_capacity s)
             (take (pptr s) (m_sourceBuffer s)) of
           Inl name \<Rightarrow> Inl (Runtime_error (''LZ4 compression failed: '' @ name),
              s\<lparr>pptr := 0, calls := calls s @ [Update (take (pptr s) (m_sourceBuffer s))]\<rparr>)
         | Inr (out, e) \<Rightarrow> Inr (s\<lparr>pptr := 0,
              calls := calls s @ [Update (take (pptr s) (m_sourceBuffer s))],
              m_context := e, m_sink := m_sink s @ out\<rparr>))"
proof -
  have a: "to_int32 (pptr s) = int (pptr s)"
    using assms(2) by (rule to_int32_small)
  have b: "to_size_t (int (pptr s)) = pptr s"
    using assms(2) by (rule to_size_t_int)
  show ?thesis
    using assms(1) by (simp add: CompressAndWrite_def Let_def pbump_def a b split: sum.split)
qed

lemma sputc_room:
  assumes "pptr s < epptr s"
  shows "sputc enc c s =
     Inr (to_int_type c, s\<lparr>m_sourceBuffer := (m_sourceBuffer s)[pptr s := c], pptr := Suc (pptr s)\<rparr>)"
  using assms by (simp add: sputc_def pbump_def nat_add_distrib)

lemma sputc_full:
  assumes "put_area_ok s" "pptr s = epptr s" "\<not> m_closed s"
  shows "sputc enc c s =
     (case LZ4F_compressUpdate enc (m_context s) (m_destinationBuffer_capacity s)
             (take (pptr s) (m_sourceBuffer s) @ [c]) of
        Inl name \<Rightarrow> Inl (Runtime_error (''LZ4 compression failed: '' @ name),
           s\<lparr>m_sourceBuffer := (m_sourceBuffer s)[pptr s := c], pptr := 0,
             calls := calls s @ [Update (take (pptr s) (m_sourceBuffer s) @ [c])]\<rparr>)
      | Inr (out, e) \<Rightarrow> Inr (to_int_type c,
           s\<lparr>m_sourceBuffer := (m_sourceBuffer s)[pptr s := c], pptr := 0,
             calls := calls s @ [Update (take (pptr s) (m_sourceBuffer s) @ [c])],
             m_context := e, m_sink := m_sink s @ out\<rparr>))"
    (is "_ = ?rhs")
proof -
  let ?s2 = "pbump 1 (s\<lparr>m_sourceBuffer := (m_sourceBuffer s)[pptr s := c]\<rparr>)"
  have len: "pptr s < length (m_sourceBuffer s)" "Suc (pptr s) < 2 ^ 31"
    using assms(1,2) by (auto simp: put_area_ok_def)
  have tk: "take (Suc (pptr s)) ((m_sourceBuffer s)[pptr s := c])
              = take (pptr s) (m_sourceBuffer s) @ [c]"
    using len(1) by (simp add: take_Suc_conv_app_nth)
  have cw: "\<not> m_closed ?s2" "pptr ?s2 < 2 ^ 31"
    using assms(3) len(2) by (simp_all add: pbump_def nat_add_distrib)
  have full: "\<not> pptr s < epptr s" "pptr s \<le> epptr s"
    using assms(2) by simp_all
  have "sputc enc c s =
     (case CompressAndWrite enc ?s2 of Inl fs \<Rightarrow> Inl fs | Inr s3 \<Rightarrow> Inr (to_int_type c, s3))"
    by (simp add: sputc_def overflow_def Let_def to_char_type_inverse full)
  also have "\<dots> = ?rhs"
    unfolding CompressAndWrite_open [OF cw]
    by (simp add: pbump_def tk nat_add_distrib split: sum.split)
  finally show ?thesis .
qed

text \<open>Bytes that fit into the put area are stored, and nothing else happens.\<close>

lemma sputn_fits:
  assumes "pptr s + length xs \<le> epptr s" "epptr s < length (m_sourceBuffer s)"
  shows "\<exists>buf. sputn enc xs s = Inr (s\<lparr>m_sourceBuffer := buf, pptr := pptr s + length xs\<rparr>)
           \<and> length buf = length (m_sourceBuffer s)
           \<and> take (pptr s + length xs) buf = take (pptr s) (m_sourceBuffer s) @ xs"
  using assms
proof (induction xs arbitrary: s)
  case Nil
  show ?case by (rule exI [of _ "m_sourceBuffer s"]) simp
next
  case (Cons c cs)
  let ?s1 = "s\<lparr>m_sourceBuffer := (m_sourceBuffer s)[pptr s := c], pptr := Suc (pptr s)\<rparr>"
  have room: "pptr s < epptr s" using Cons.prems(1) by simp
  have step: "sputc enc c s = Inr (to_int_type c, ?s1)"
    using room by (rule sputc_room)
  have "pptr ?s1 + length cs \<le> epptr ?s1" "epptr ?s1 < length (m_sourceBuffer ?s1)"
    using Cons.prems by simp_all
  from Cons.IH [OF this] obtain buf where
    run: "sputn enc cs ?s1 = Inr (?s1\<lparr>m_sourceBuffer := buf, pptr := pptr ?s1 + length cs\<rparr>)"
    and len: "length buf = length (m_sourceBuffer ?s1)"
    and tk: "take (pptr ?s1 + length cs) buf = take (pptr ?s1) (m_sourceBuffer ?s1) @ cs"
    by blast
  have lt: "pptr s < length (m_sourceBuffer s)"
    using room Cons.prems(2) by simp
  have "sputn enc (c # cs) s = Inr (s\<lparr>m_sourceBuffer := buf, pptr := pptr s + length (c # cs)\<rparr>)"
    using step run by (simp add: to_int_type_not_eof)
  moreover have "length buf = length (m_sourceBuffer s)"
    using len by simp
  moreover have "take (pptr s + length (c # cs)) buf = take (pptr s) (m_sourceBuffer s) @ c # cs"
    using tk lt by (simp add: take_Suc_conv_app_nth)
  ultimately show ?case by blast
qed

lemma Close_times_closed: "m_closed s \<Longrightarrow> Close_times enc n s = Inr s"
  by (induction n) (simp_all add: Close_def)

lemma ctor_state:
  assumes "output_buffer_ctor enc mem sink = Inr s"
  shows "m_sourceBuffer s = mem" "pptr s = 0" "epptr s = length mem - 1" "\<not> m_closed s"
    "m_destinationBuffer_capacity s = 1"
  using assms
  by (auto simp: output_buffer_ctor_def WriteHeader_def Let_def
           split: sum.splits prod.splits if_splits)

lemma to_int32_0: "to_int32 0 = 0"
  by (simp add: to_int32_def)

lemma ctor_mock: "output_buffer_ctor mock_encoder [0, 0, 0, 0] [] = Inr open_example"
  by (simp add: output_buffer_ctor_def WriteHeader_def mock_encoder_def open_example_def)

lemma Close_mock: "Close mock_encoder open_example = Inr closed_example"
  by (simp add: mock_encoder_def closed_example_def open_example_def Close_def sync_def
        CompressAndWrite_def WriteFooter_def pbump_def to_int32_0 to_size_t_def)

section \<open>Close is idempotent\<close>

text \<open>
  C3. The first \<^verbatim>\<open>Close\<close> of an open adapter that completes has flushed the pending
  bytes with one encoder update, has had the encoder end the frame, has appended the
  update's output and then the footer to the sink, has released the encoder session and
  has marked the adapter closed. Every later \<^verbatim>\<open>Close\<close> returns without an error and
  changes nothing, so after any number of calls the sink holds the footer once.
\<close>

theorem close_idempotent:
  assumes "\<not> m_closed s" and "pptr s < 2 ^ 31" and "Close enc s = Inr s1"
  shows "\<exists>body e1 footer e2.
           LZ4F_compressUpdate enc (m_context s) (m_destinationBuffer_capacity s)
             (take (pptr s) (m_sourceBuffer s)) = Inr (body, e1)
         \<and> LZ4F_compressEnd enc e1 (m_destinationBuffer_capacity s) = Inr (footer, e2)
         \<and> m_sink s1 = m_sink s @ body @ footer
         \<and> calls s1 = calls s @ [Update (take (pptr s) (m_sourceBuffer s)), End, Free]
         \<and> m_closed s1
         \<and> (\<forall>n. Close_times enc n s1 = Inr s1 \<and> Close_times enc (Suc n) s = Inr s1)"
proof -
  from assms(3) assms(1) obtain body e1 footer e2 where
    upd: "LZ4F_compressUpdate enc (m_context s) (m_destinationBuffer_capacity s)
             (take (pptr s) (m_sourceBuffer s)) = Inr (body, e1)"
    and fin: "LZ4F_compressEnd enc e1 (m_destinationBuffer_capacity s) = Inr (footer, e2)"
    and s1: "s1 = s\<lparr>pptr := 0,
               calls := calls s @ [Update (take (pptr s) (m_sourceBuffer s)), End, Free],
               m_context := e2, m_sink := m_sink s @ body @ footer, m_closed := True\<rparr>"
    by (auto simp: Close_def sync_def WriteFooter_def Let_def
          CompressAndWrite_open [OF assms(1,2)] split: sum.splits prod.splits if_splits)
  have closed: "m_closed s1" using s1 by simp
  have rep: "Close_times enc n s1 = Inr s1" for n
    using closed by (rule Close_times_closed)
  have "Close_times enc (Suc n) s = Inr s1" for n
    using assms(3) rep by simp
  with upd fin s1 rep show ?thesis by simp
qed

theorem close_idempotent_witness:
  "\<not> m_closed open_example \<and> pptr open_example < 2 ^ 31
   \<and> Close mock_encoder open_example = Inr closed_example
   \<and> m_sink closed_example = m_sink open_example @ [] @ [0]
   \<and> calls closed_example = calls open_example @ [Update [], End, Free]
   \<and> Close_times mock_encoder 3 open_example = Inr closed_example"
proof -
  have h1: "\<not> m_closed open_example" by (simp add: open_example_def)
  have h2: "pptr open_example < 2 ^ 31" by (simp add: open_example_def)
  have h3: "Close mock_encoder open_example = Inr closed_example" by (rule Close_mock)
  from close_idempotent [OF h1 h2 h3]
  have "Close_times mock_encoder (Suc 2) open_example = Inr closed_example" by blast
  then have "Close_times mock_encoder 3 open_example = Inr closed_example"
    by (simp add: numeral_3_eq_3)
  with h1 h2 h3 show ?thesis by (simp add: open_example_def closed_example_def)
qed

section \<open>The flush at the buffer boundary\<close>

text \<open>
  C8. Let the raw buffer of a newly constructed adapter have capacity \<open>C\<close> (at least
  one, and within \<^verbatim>\<open>int32_t\<close>). Writing \<open>C - 1\<close> bytes, or any beginning of them,
  calls the encoder not at all and leaves the sink as it was. Writing one more byte
  calls the encoder's update exactly once, on the span of all \<open>C\<close> bytes with the last
  byte included; when the update succeeds its output goes to the sink and the raw
  buffer is empty again, and when it reports an error the write throws and the sink is
  as it was.
\<close>

theorem flush_at_capacity:
  assumes "output_buffer_ctor enc mem sink = Inr s"
    and "0 < length mem" and "length mem < 2 ^ 31"
    and "length xs = length mem - 1"
  shows "(\<forall>k. \<exists>s'. sputn enc (take k xs) s = Inr s' \<and> m_sink s' = m_sink s \<and> calls s' = calls s)
       \<and> (\<exists>s1. sputn enc xs s = Inr s1 \<and> m_sink s1 = m_sink s \<and> calls s1 = calls s
            \<and> (case sputc enc c s1 of
                  Inl (f, s2) \<Rightarrow> calls s2 = calls s @ [Update (xs @ [c])] \<and> m_sink s2 = m_sink s
                | Inr (r, s2) \<Rightarrow> calls s2 = calls s @ [Update (xs @ [c])] \<and> pptr s2 = 0
                    \<and> (\<exists>body e. LZ4F_compressUpdate enc (m_context s)
                                   (m_destinationBuffer_capacity s) (xs @ [c]) = Inr (body, e)
                                 \<and> m_sink s2 = m_sink s @ body)))"
proof -
  note st = ctor_state [OF assms(1)]
  have ep: "epptr s < length (m_sourceBuffer s)"
    using st(1,3) assms(2) by simp
  have before: "\<exists>s'. sputn enc (take k xs) s = Inr s' \<and> m_sink s' = m_sink s \<and> calls s' = calls s"
    for k
  proof -
    have "pptr s + length (take k xs) \<le> epptr s"
      using st(2,3) assms(4) by simp
    from sputn_fits [OF this ep, of enc] show ?thesis by auto
  qed
  have "pptr s + length xs \<le> epptr s"
    using st(2,3) assms(4) by simp
  from sputn_fits [OF this ep, of enc] obtain buf where
    run: "sputn enc xs s = Inr (s\<lparr>m_sourceBuffer := buf, pptr := pptr s + length xs\<rparr>)"
    and len: "length buf = length (m_sourceBuffer s)"
    and tk: "take (pptr s + length xs) buf = take (pptr s) (m_sourceBuffer s) @ xs"
    by blast
  let ?s1 = "s\<lparr>m_sourceBuffer := buf, pptr := pptr s + length xs\<rparr>"
  have ok: "put_area_ok ?s1" "pptr ?s1 = epptr ?s1" "\<not> m_closed ?s1"
    using st len assms(2,3,4) by (simp_all add: put_area_ok_def)
  have span: "take (pptr ?s1) (m_sourceBuffer ?s1) = xs"
    using tk st(2) by simp
  have "case sputc enc c ?s1 of
          Inl (f, s2) \<Rightarrow> calls s2 = calls s @ [Update (xs @ [c])] \<and> m_sink s2 = m_sink s
        | Inr (r, s2) \<Rightarrow> calls s2 = calls s @ [Update (xs @ [c])] \<and> pptr s2 = 0
            \<and> (\<exists>body e. LZ4F_compressUpdate enc (m_context s)
                           (m_destinationBuffer_capacity s) (xs @ [c]) = Inr (body, e)
                         \<and> m_sink s2 = m_sink s @ body)"
    unfolding sputc_full [OF ok] span
    by (simp split: sum.split)
  with run before show ?thesis by simp
qed

theorem flush_at_capacity_witness:
  "output_buffer_ctor mock_encoder [0, 0, 0, 0] [] = Inr open_example
   \<and> 0 < length [0, 0, 0, 0 :: byte] \<and> length [0, 0, 0, 0 :: byte] < 2 ^ 31
   \<and> length [10, 20, 30 :: byte] = length [0, 0, 0, 0 :: byte] - 1
   \<and> (\<exists>s1. sputn mock_encoder [10, 20, 30] open_example = Inr s1
         \<and> m_sink s1 = [76] \<and> calls s1 = [Create, Begin]
         \<and> (\<exists>s2. sputc mock_encoder 40 s1
                    = Inl (Runtime_error ''LZ4 compression failed: ERROR_dstMaxSize_tooSmall'', s2)
               \<and> calls s2 = [Create, Begin, Update [10, 20, 30, 40]]
               \<and> m_sink s2 = [76]))
   \<and> (\<exists>s. output_buffer_ctor raw_encoder [0] [] = Inr s
         \<and> length ([] :: byte list) = length [0 :: byte] - 1
         \<and> sputn raw_encoder [] s = Inr s
         \<and> (\<exists>r s2. sputc raw_encoder 40 s = Inr (r, s2)
               \<and> calls s2 = [Create, Begin, Update [40]] \<and> m_sink s2 = [40]))"
proof -
  have h1: "output_buffer_ctor mock_encoder [0, 0, 0, 0] [] = Inr open_example"
    by (rule ctor_mock)
  have h2: "0 < length [0, 0, 0, 0 :: byte]" by simp
  have h3: "length [0, 0, 0, 0 :: byte] < 2 ^ 31" by simp
  have h4: "length [10, 20, 30 :: byte] = length [0, 0, 0, 0 :: byte] - 1" by simp
  from flush_at_capacity [OF h1 h2 h3 h4, of 40] obtain s1 where
    run: "sputn mock_encoder [10, 20, 30] open_example = Inr s1"
    and same: "m_sink s1 = m_sink open_example" "calls s1 = calls open_example"
    and last: "case sputc mock_encoder 40 s1 of
          Inl (f, s2) \<Rightarrow> calls s2 = calls open_example @ [Update ([10, 20, 30] @ [40])]
                          \<and> m_sink s2 = m_sink open_example
        | Inr (r, s2) \<Rightarrow> calls s2 = calls open_example @ [Update ([10, 20, 30] @ [40])]
            \<and> pptr s2 = 0
            \<and> (\<exists>body e. LZ4F_compressUpdate mock_encoder (m_context open_example)
                           (m_destinationBuffer_capacity open_example) ([10, 20, 30] @ [40])
                         = Inr (body, e)
                         \<and> m_sink s2 = m_sink open_example @ body)"
    by blast
  have s1: "s1 = open_example\<lparr>m_sourceBuffer := [10, 20, 30, 0], pptr := 3\<rparr>"
    using run by (simp add: sputc_def pbump_def open_example_def to_int_type_def eof_def)
  have thrown: "sputc mock_encoder 40 s1
      = Inl (Runtime_error ''LZ4 compression failed: ERROR_dstMaxSize_tooSmall'',
             open_example\<lparr>m_sourceBuffer := [10, 20, 30, 40],
               calls := [Create, Begin, Update [10, 20, 30, 40]]\<rparr>)"
    unfolding s1
    by (simp add: open_example_def mock_encoder_def sputc_def overflow_def to_int_type_def
          to_char_type_def CompressAndWrite_def Let_def pbump_def to_int32_def to_size_t_def)
  have w1: "\<exists>s2. sputc mock_encoder 40 s1
                    = Inl (Runtime_error ''LZ4 compression failed: ERROR_dstMaxSize_tooSmall'', s2)
               \<and> calls s2 = [Create, Begin, Update [10, 20, 30, 40]]
               \<and> m_sink s2 = [76]"
    using last unfolding thrown by (simp add: open_example_def)
  let ?r = "\<lparr>m_sink = [], m_sourceBuffer = [0], pptr = 0, epptr = 0,
             m_destinationBuffer_capacity = 1, m_context = 0 :: nat, m_closed = False,
             calls = [Create, Begin]\<rparr>"
  have g1: "output_buffer_ctor raw_encoder [0] [] = Inr ?r"
    by (simp add: output_buffer_ctor_def WriteHeader_def raw_encoder_def)
  have g2: "0 < length [0 :: byte]" by simp
  have g3: "length [0 :: byte] < 2 ^ 31" by simp
  have g4: "length ([] :: byte list) = length [0 :: byte] - 1" by simp
  from flush_at_capacity [OF g1 g2 g3 g4, of 40] obtain t1 where
    run0: "sputn raw_encoder [] ?r = Inr t1"
    and last0: "case sputc raw_encoder 40 t1 of
          Inl (f, s2) \<Rightarrow> calls s2 = calls ?r @ [Update ([] @ [40])] \<and> m_sink s2 = m_sink ?r
        | Inr (r, s2) \<Rightarrow> calls s2 = calls ?r @ [Update ([] @ [40])] \<and> pptr s2 = 0
            \<and> (\<exists>body e. LZ4F_compressUpdate raw_encoder (m_context ?r)
                           (m_destinationBuffer_capacity ?r) ([] @ [40]) = Inr (body, e)
                         \<and> m_sink s2 = m_sink ?r @ body)"
    by blast
  have t1: "t1 = ?r" using run0 by simp
  have stored: "sputc raw_encoder 40 ?r
      = Inr (40, ?r\<lparr>m_sink := [40], m_sourceBuffer := [40], m_context := 1,
                     calls := [Create, Begin, Update [40]]\<rparr>)"
    by (simp add: raw_encoder_def sputc_def overflow_def to_int_type_def
          to_char_type_def CompressAndWrite_def Let_def pbump_def to_int32_def to_size_t_def)
  have "\<exists>r s2. sputc raw_encoder 40 ?r = Inr (r, s2)
               \<and> calls s2 = [Create, Begin, Update [40]] \<and> m_sink s2 = [40]"
    using last0 unfolding t1 stored by simp
  with g1 g4 have w2: "\<exists>s. output_buffer_ctor raw_encoder [0] [] = Inr s
         \<and> length ([] :: byte list) = length [0 :: byte] - 1
         \<and> sputn raw_encoder [] s = Inr s
         \<and> (\<exists>r s2. sputc raw_encoder 40 s = Inr (r, s2)
               \<and> calls s2 = [Create, Begin, Update [40]] \<and> m_sink s2 = [40])"
    by (intro exI [of _ ?r]) simp
  from h1 h2 h3 h4 run same w1 w2 show ?thesis
    by (simp add: open_example_def)
qed

section \<open>Writing after close\<close>

text \<open>
  C4. The closed adapter still accepts a byte: \<^verbatim>\<open>sputc\<close> finds room in the put area,
  stores the byte and returns it as written, and the closed check in
  \<^verbatim>\<open>CompressAndWrite\<close> is not reached. The byte stays in the raw buffer: a later
  \<^verbatim>\<open>Close\<close> returns at once, and the sink never gets it. A flush of the closed adapter
  does fail, on the assertion.
\<close>

theorem write_after_close_accepted:
  "Close mock_encoder open_example = Inr closed_example
   \<and> sputc mock_encoder 65 closed_example
       = Inr (65, closed_example\<lparr>m_sourceBuffer := [65, 0, 0, 0], pptr := 1\<rparr>)
   \<and> Close mock_encoder (closed_example\<lparr>m_sourceBuffer := [65, 0, 0, 0], pptr := 1\<rparr>)
       = Inr (closed_example\<lparr>m_sourceBuffer := [65, 0, 0, 0], pptr := 1\<rparr>)
   \<and> m_sink (closed_example\<lparr>m_sourceBuffer := [65, 0, 0, 0], pptr := 1\<rparr>) = [76, 0]
   \<and> sync mock_encoder closed_example = Inl (Assertion_failed, closed_example)"
  by (simp add: Close_mock)
     (simp add: sputc_def closed_example_def pbump_def to_int_type_def Close_def sync_def
        CompressAndWrite_def)

section \<open>Release of the encoder session\<close>

text \<open>
  C9. With an encoder whose begin operation reports an error, the constructor of the
  sink adapter has created the encoder session when \<^verbatim>\<open>WriteHeader\<close> throws. No object
  results, so no destructor runs, and the calls made to the encoder are the creation
  and the begin: the session is not released.
\<close>

theorem session_leaked_by_constructor:
  "output_buffer_ctor failing_begin_encoder [0, 0, 0, 0] [] =
     Inl (Runtime_error ''Failed to start LZ4 compression: ERROR_allocation_failed'',
          [], [Create, Begin])
   \<and> Free \<notin> set [Create, Begin]"
  by (simp add: output_buffer_ctor_def WriteHeader_def failing_begin_encoder_def mock_encoder_def)

section \<open>Facts about the pull loop\<close>

lemma underflow_loop_again:
  "underflow_body dec s = Again s1 \<Longrightarrow> underflow_loop dec s = underflow_loop dec s1"
  by (subst underflow_loop.simps) simp

lemma underflow_loop_exit:
  "underflow_body dec s = Exit r \<Longrightarrow> underflow_loop dec s = Some r"
  by (subst underflow_loop.simps) simp

lemma after_iterations_loop:
  "after_iterations dec n s = Some s1 \<Longrightarrow> underflow_loop dec s = underflow_loop dec s1"
proof (induction n arbitrary: s)
  case 0
  then show ?case by simp
next
  case (Suc n)
  then obtain s2 where b: "underflow_body dec s = Again s2"
    and r: "after_iterations dec n s2 = Some s1"
    by (auto split: iteration.splits)
  from Suc.IH [OF r] underflow_loop_again [OF b] show ?case by simp
qed

text \<open>The three ways through the loop body.\<close>

lemma body_eof:
  "m_sourceBufferSize (refill s) = 0 \<Longrightarrow> underflow_body dec s = Exit (Return_eof (refill s))"
  by (simp add: underflow_body_def)

lemma body_error:
  assumes "m_sourceBufferSize (refill s) \<noteq> 0"
    and "LZ4F_decompress dec (m_dctx (refill s)) (length (destinationBuffer (refill s)))
           (src_span (refill s)) = Inl name"
  shows "underflow_body dec s =
     Exit (Throw (Runtime_error (''LZ4 decompression failed: '' @ name))
            ((refill s)\<lparr>dec_calls := dec_calls (refill s) @ [src_span (refill s)]\<rparr>))"
  using assms by (simp add: underflow_body_def Let_def)

lemma body_decoded:
  assumes "m_sourceBufferSize (refill s) \<noteq> 0"
    and "LZ4F_decompress dec (m_dctx (refill s)) (length (destinationBuffer (refill s)))
           (src_span (refill s)) = Inr (consumed, out, d)"
  shows "underflow_body dec s =
     (let s3 = (refill s)\<lparr>dec_calls := dec_calls (refill s) @ [src_span (refill s)],
                 m_dctx := d,
                 destinationBuffer := out @ drop (length out) (destinationBuffer (refill s)),
                 m_offset := m_offset (refill s) + consumed\<rparr>
      in if out = [] then Again s3 else Exit (Written (length out) s3))"
  using assms by (simp add: underflow_body_def Let_def)

lemma refill_pending: "m_offset s \<noteq> m_sourceBufferSize s \<Longrightarrow> refill s = s"
  by (simp add: refill_def)

lemma src_span_advance:
  assumes "m_offset s + c \<le> m_sourceBufferSize s"
  shows "src_span (s\<lparr>m_offset := m_offset s + c\<rparr>) = drop c (src_span s)"
proof -
  have "size_t_sub (m_sourceBufferSize s) (m_offset s + c)
          = size_t_sub (m_sourceBufferSize s) (m_offset s) - c"
    using assms by (simp add: size_t_sub_def)
  then show ?thesis
    by (simp add: src_span_def drop_take add.commute)
qed

section \<open>Partial consumption\<close>

text \<open>
  C7. Take an iteration of the pull loop that reaches the decoder, in a state whose
  read offset does not exceed the read limit, and let the decoder consume fewer
  bytes than it was offered and produce none. Then the loop goes round again with the
  read offset advanced by the consumed count and the read limit unchanged; the next
  iteration issues no upstream read, and its decoder call, the next one made, is on
  the remaining bytes of the same buffered region.
\<close>

theorem partial_consumption:
  assumes "m_offset s \<le> m_sourceBufferSize s"
    and "m_sourceBufferSize (refill s) \<noteq> 0"
    and "LZ4F_decompress dec (m_dctx (refill s)) (length (destinationBuffer (refill s)))
           (src_span (refill s)) = Inr (consumed, [], d)"
    and "consumed < length (src_span (refill s))"
  shows "\<exists>s2. underflow_body dec s = Again s2
           \<and> m_offset s2 = m_offset (refill s) + consumed
           \<and> m_sourceBufferSize s2 = m_sourceBufferSize (refill s)
           \<and> reads s2 = reads (refill s)
           \<and> dec_calls s2 = dec_calls (refill s) @ [src_span (refill s)]
           \<and> refill s2 = s2
           \<and> src_span s2 = drop consumed (src_span (refill s))
           \<and> reads (iteration_state (underflow_body dec s2)) = reads s2
           \<and> dec_calls (iteration_state (underflow_body dec s2))
               = dec_calls s2 @ [drop consumed (src_span (refill s))]"
proof -
  let ?s1 = "refill s"
  let ?s2 = "?s1\<lparr>dec_calls := dec_calls ?s1 @ [src_span ?s1], m_dctx := d,
                destinationBuffer := [] @ drop (length ([] :: byte list)) (destinationBuffer ?s1),
                m_offset := m_offset ?s1 + consumed\<rparr>"
  have le1: "m_offset ?s1 \<le> m_sourceBufferSize ?s1"
    using assms(1) by (simp add: refill_def Let_def)
  have "length (src_span ?s1) \<le> m_sourceBufferSize ?s1 - m_offset ?s1"
    using le1 by (simp add: src_span_def size_t_sub_def)
  with assms(4) have lt: "m_offset ?s1 + consumed < m_sourceBufferSize ?s1"
    by simp
  have body: "underflow_body dec s = Again ?s2"
    using body_decoded [OF assms(2,3)] by (simp add: Let_def)
  have pend: "m_offset ?s2 \<noteq> m_sourceBufferSize ?s2"
    using lt by simp
  have keep: "refill ?s2 = ?s2"
    using pend by (rule refill_pending)
  have "src_span (?s1\<lparr>m_offset := m_offset ?s1 + consumed\<rparr>) = drop consumed (src_span ?s1)"
    using lt by (intro src_span_advance) simp
  then have span: "src_span ?s2 = drop consumed (src_span ?s1)"
    by (simp add: src_span_def)
  have size2: "m_sourceBufferSize (refill ?s2) \<noteq> 0"
    unfolding keep using lt by simp
  have next_call: "reads (iteration_state (underflow_body dec ?s2)) = reads ?s2
      \<and> dec_calls (iteration_state (underflow_body dec ?s2)) = dec_calls ?s2 @ [src_span ?s2]"
  proof (cases "LZ4F_decompress dec (m_dctx (refill ?s2))
                  (length (destinationBuffer (refill ?s2))) (src_span (refill ?s2))")
    case (Inl name)
    show ?thesis
      unfolding body_error [OF size2 Inl] keep by simp
  next
    case (Inr r)
    obtain c out d1 where r: "r = (c, out, d1)" by (cases r) auto
    show ?thesis
      unfolding body_decoded [OF size2 Inr [unfolded r]] keep by (simp add: Let_def)
  qed
  show ?thesis
    using body keep span next_call by (intro exI [of _ ?s2]) simp
qed

theorem partial_consumption_witness:
  "m_offset frame_example \<le> m_sourceBufferSize frame_example
   \<and> m_sourceBufferSize (refill frame_example) \<noteq> 0
   \<and> LZ4F_decompress mock_decoder (m_dctx (refill frame_example))
        (length (destinationBuffer (refill frame_example))) (src_span (refill frame_example))
        = Inr (1, [], Tag)
   \<and> 1 < length (src_span (refill frame_example))
   \<and> src_span (refill frame_example) = [76, 1, 65, 0]
   \<and> (\<exists>s2. underflow_body mock_decoder frame_example = Again s2
         \<and> m_offset s2 = 1 \<and> m_sourceBufferSize s2 = 4 \<and> reads s2 = 1
         \<and> src_span s2 = [1, 65, 0]
         \<and> reads (iteration_state (underflow_body mock_decoder s2)) = 1
         \<and> dec_calls (iteration_state (underflow_body mock_decoder s2))
             = [[76, 1, 65, 0], [1, 65, 0]])"
proof -
  have r: "refill frame_example =
      frame_example\<lparr>reads := 1, sourceBuffer := [76, 1, 65, 0], m_sourceBufferSize := 4\<rparr>"
    by (simp add: refill_def Let_def frame_example_def fresh_source_def istream_of_def)
  have sp: "src_span (refill frame_example) = [76, 1, 65, 0]"
    unfolding r by (simp add: src_span_def size_t_sub_def frame_example_def fresh_source_def)
  have h1: "m_offset frame_example \<le> m_sourceBufferSize frame_example"
    by (simp add: frame_example_def fresh_source_def)
  have h2: "m_sourceBufferSize (refill frame_example) \<noteq> 0"
    unfolding r by simp
  have h3: "LZ4F_decompress mock_decoder (m_dctx (refill frame_example))
        (length (destinationBuffer (refill frame_example))) (src_span (refill frame_example))
        = Inr (1, [], Tag)"
    unfolding sp unfolding r by (simp add: mock_decoder_def frame_example_def fresh_source_def)
  have h4: "1 < length (src_span (refill frame_example))"
    unfolding sp by simp
  from partial_consumption [OF h1 h2 h3 h4] obtain s2 where
    "underflow_body mock_decoder frame_example = Again s2"
    "m_offset s2 = m_offset (refill frame_example) + 1"
    "m_sourceBufferSize s2 = m_sourceBufferSize (refill frame_example)"
    "reads s2 = reads (refill frame_example)"
    "dec_calls s2 = dec_calls (refill frame_example) @ [src_span (refill frame_example)]"
    "src_span s2 = drop 1 (src_span (refill frame_example))"
    "reads (iteration_state (underflow_body mock_decoder s2)) = reads s2"
    "dec_calls (iteration_state (underflow_body mock_decoder s2))
       = dec_calls s2 @ [drop 1 (src_span (refill frame_example))]"
    by blast
  then have "\<exists>s2. underflow_body mock_decoder frame_example = Again s2
         \<and> m_offset s2 = 1 \<and> m_sourceBufferSize s2 = 4 \<and> reads s2 = 1
         \<and> src_span s2 = [1, 65, 0]
         \<and> reads (iteration_state (underflow_body mock_decoder s2)) = 1
         \<and> dec_calls (iteration_state (underflow_body mock_decoder s2))
             = [[76, 1, 65, 0], [1, 65, 0]]"
    unfolding sp unfolding r
    by (intro exI [of _ s2]) (simp add: frame_example_def fresh_source_def)
  with h1 h2 h3 h4 sp show ?thesis by blast
qed

section \<open>Codec errors are fatal\<close>

text \<open>
  C5. When a decoder call of the pull loop reports an error, whether it is the first
  call of the read or comes after iterations that produced nothing, \<^verbatim>\<open>underflow\<close>
  throws a runtime error whose message ends in the codec's error name; the call is the
  last one made, and the result is not end-of-stream. In the same way an error from
  the encoder's begin, called at the destination capacity 1 that the adapter has,
  makes the constructor throw, an error from its update makes
  \<^verbatim>\<open>sync\<close>, \<^verbatim>\<open>Close\<close> and the overflowing write throw, and an error from its end
  makes \<^verbatim>\<open>Close\<close> throw, each with the codec's error name in the message and with
  the failed call as the last one made.
\<close>

theorem codec_errors_are_fatal:
  "(after_iterations dec n s = Some s1 \<and> m_sourceBufferSize (refill s1) \<noteq> 0
      \<and> LZ4F_decompress dec (m_dctx (refill s1)) (length (destinationBuffer (refill s1)))
           (src_span (refill s1)) = Inl name
    \<longrightarrow> underflow dec s =
          Some (Inl (Runtime_error (''LZ4 decompression failed: '' @ name),
                     (refill s1)\<lparr>dec_calls := dec_calls (refill s1) @ [src_span (refill s1)]\<rparr>)))
   \<and> (LZ4F_createCompressionContext enc = Inr ctx
      \<and> LZ4F_compressBegin enc ctx 1 = Inl name
    \<longrightarrow> output_buffer_ctor enc mem sink =
          Inl (Runtime_error (''Failed to start LZ4 compression: '' @ name),
               sink, [Create, Begin]))
   \<and> (\<not> m_closed t \<and> pptr t < 2 ^ 31
      \<and> LZ4F_compressUpdate enc (m_context t) (m_destinationBuffer_capacity t)
           (take (pptr t) (m_sourceBuffer t)) = Inl name
    \<longrightarrow> sync enc t =
          Inl (Runtime_error (''LZ4 compression failed: '' @ name),
               t\<lparr>pptr := 0, calls := calls t @ [Update (take (pptr t) (m_sourceBuffer t))]\<rparr>)
        \<and> Close enc t =
          Inl (Runtime_error (''LZ4 compression failed: '' @ name),
               t\<lparr>pptr := 0, calls := calls t @ [Update (take (pptr t) (m_sourceBuffer t))]\<rparr>))
   \<and> (put_area_ok t \<and> pptr t = epptr t \<and> \<not> m_closed t
      \<and> LZ4F_compressUpdate enc (m_context t) (m_destinationBuffer_capacity t)
           (take (pptr t) (m_sourceBuffer t) @ [c]) = Inl name
    \<longrightarrow> sputc enc c t =
          Inl (Runtime_error (''LZ4 compression failed: '' @ name),
               t\<lparr>m_sourceBuffer := (m_sourceBuffer t)[pptr t := c], pptr := 0,
                 calls := calls t @ [Update (take (pptr t) (m_sourceBuffer t) @ [c])]\<rparr>))
   \<and> (\<not> m_closed t \<and> pptr t < 2 ^ 31
      \<and> LZ4F_compressUpdate enc (m_context t) (m_destinationBuffer_capacity t)
           (take (pptr t) (m_sourceBuffer t)) = Inr (body, e1)
      \<and> LZ4F_compressEnd enc e1 (m_destinationBuffer_capacity t) = Inl name
    \<longrightarrow> Close enc t =
          Inl (Runtime_error (''Failed to end LZ4 compression: '' @ name),
               t\<lparr>pptr := 0,
                 calls := calls t @ [Update (take (pptr t) (m_sourceBuffer t)), End],
                 m_context := e1, m_sink := m_sink t @ body\<rparr>))"
proof (intro conjI impI)
  assume a: "after_iterations dec n s = Some s1 \<and> m_sourceBufferSize (refill s1) \<noteq> 0
      \<and> LZ4F_decompress dec (m_dctx (refill s1)) (length (destinationBuffer (refill s1)))
           (src_span (refill s1)) = Inl name"
  then have "after_iterations dec n s = Some s1" by simp
  then have "underflow_loop dec s = underflow_loop dec s1"
    by (rule after_iterations_loop)
  moreover have "underflow_body dec s1 =
     Exit (Throw (Runtime_error (''LZ4 decompression failed: '' @ name))
            ((refill s1)\<lparr>dec_calls := dec_calls (refill s1) @ [src_span (refill s1)]\<rparr>))"
    using a by (intro body_error) simp_all
  ultimately show "underflow dec s =
          Some (Inl (Runtime_error (''LZ4 decompression failed: '' @ name),
                     (refill s1)\<lparr>dec_calls := dec_calls (refill s1) @ [src_span (refill s1)]\<rparr>))"
    by (simp add: underflow_def underflow_loop_exit)
next
  assume "LZ4F_createCompressionContext enc = Inr ctx
      \<and> LZ4F_compressBegin enc ctx 1 = Inl name"
  then show "output_buffer_ctor enc mem sink =
          Inl (Runtime_error (''Failed to start LZ4 compression: '' @ name),
               sink, [Create, Begin])"
    by (simp add: output_buffer_ctor_def WriteHeader_def)
next
  assume a: "\<not> m_closed t \<and> pptr t < 2 ^ 31
      \<and> LZ4F_compressUpdate enc (m_context t) (m_destinationBuffer_capacity t)
           (take (pptr t) (m_sourceBuffer t)) = Inl name"
  then have cw: "CompressAndWrite enc t =
     Inl (Runtime_error (''LZ4 compression failed: '' @ name),
          t\<lparr>pptr := 0, calls := calls t @ [Update (take (pptr t) (m_sourceBuffer t))]\<rparr>)"
    by (simp add: CompressAndWrite_open)
  show "sync enc t =
          Inl (Runtime_error (''LZ4 compression failed: '' @ name),
               t\<lparr>pptr := 0, calls := calls t @ [Update (take (pptr t) (m_sourceBuffer t))]\<rparr>)"
    by (simp add: sync_def cw)
  show "Close enc t =
          Inl (Runtime_error (''LZ4 compression failed: '' @ name),
               t\<lparr>pptr := 0, calls := calls t @ [Update (take (pptr t) (m_sourceBuffer t))]\<rparr>)"
    using a by (simp add: Close_def sync_def cw)
next
  assume a: "put_area_ok t \<and> pptr t = epptr t \<and> \<not> m_closed t
      \<and> LZ4F_compressUpdate enc (m_context t) (m_destinationBuffer_capacity t)
           (take (pptr t) (m_sourceBuffer t) @ [c]) = Inl name"
  then have ok: "put_area_ok t" "pptr t = epptr t" "\<not> m_closed t" by blast+
  from a have u: "LZ4F_compressUpdate enc (m_context t) (m_destinationBuffer_capacity t)
           (take (pptr t) (m_sourceBuffer t) @ [c]) = Inl name" by blast
  show "sputc enc c t =
          Inl (Runtime_error (''LZ4 compression failed: '' @ name),
               t\<lparr>m_sourceBuffer := (m_sourceBuffer t)[pptr t := c], pptr := 0,
                 calls := calls t @ [Update (take (pptr t) (m_sourceBuffer t) @ [c])]\<rparr>)"
    unfolding sputc_full [OF ok] u by simp
next
  assume a: "\<not> m_closed t \<and> pptr t < 2 ^ 31
      \<and> LZ4F_compressUpdate enc (m_context t) (m_destinationBuffer_capacity t)
           (take (pptr t) (m_sourceBuffer t)) = Inr (body, e1)
      \<and> LZ4F_compressEnd enc e1 (m_destinationBuffer_capacity t) = Inl name"
  then have cw: "CompressAndWrite enc t =
     Inr (t\<lparr>pptr := 0, calls := calls t @ [Update (take (pptr t) (m_sourceBuffer t))],
            m_context := e1, m_sink := m_sink t @ body\<rparr>)"
    by (simp add: CompressAndWrite_open)
  show "Close enc t =
          Inl (Runtime_error (''Failed to end LZ4 compression: '' @ name),
               t\<lparr>pptr := 0,
                 calls := calls t @ [Update (take (pptr t) (m_sourceBuffer t)), End],
                 m_context := e1, m_sink := m_sink t @ body\<rparr>)"
    using a by (simp add: Close_def sync_def cw WriteFooter_def)
qed

theorem codec_errors_are_fatal_witness:
  "underflow mock_decoder bad_frame_example =
     Some (Inl (Runtime_error ''LZ4 decompression failed: ERROR_blockHeader_invalid'',
                bad_frame_example\<lparr>reads := 1, sourceBuffer := [76, 5, 0, 0],
                  m_sourceBufferSize := 2, m_offset := 1, m_dctx := Tag,
                  dec_calls := [[76, 5], [5]]\<rparr>))
   \<and> output_buffer_ctor failing_begin_encoder [0, 0, 0, 0] [] =
       Inl (Runtime_error ''Failed to start LZ4 compression: ERROR_allocation_failed'',
            [], [Create, Begin])
   \<and> sync failing_update_encoder open_example =
       Inl (Runtime_error ''LZ4 compression failed: ERROR_GENERIC'',
            open_example\<lparr>calls := [Create, Begin, Update []]\<rparr>)
   \<and> Close failing_update_encoder open_example =
       Inl (Runtime_error ''LZ4 compression failed: ERROR_GENERIC'',
            open_example\<lparr>calls := [Create, Begin, Update []]\<rparr>)
   \<and> sputc failing_update_encoder 65 (open_example\<lparr>pptr := 3\<rparr>) =
       Inl (Runtime_error ''LZ4 compression failed: ERROR_GENERIC'',
            open_example\<lparr>m_sourceBuffer := [0, 0, 0, 65],
              calls := [Create, Begin, Update [0, 0, 0, 65]]\<rparr>)
   \<and> Close failing_end_encoder open_example =
       Inl (Runtime_error ''Failed to end LZ4 compression: ERROR_GENERIC'',
            open_example\<lparr>calls := [Create, Begin, Update [], End], m_context := 1\<rparr>)"
proof -
  let ?s1 = "bad_frame_example\<lparr>reads := 1, sourceBuffer := [76, 5, 0, 0],
                  m_sourceBufferSize := 2, m_offset := 1, m_dctx := Tag,
                  dec_calls := [[76, 5]]\<rparr>"
  have r0: "refill bad_frame_example =
      bad_frame_example\<lparr>reads := 1, sourceBuffer := [76, 5, 0, 0], m_sourceBufferSize := 2\<rparr>"
    by (simp add: refill_def Let_def bad_frame_example_def fresh_source_def istream_of_def)
  have b0: "underflow_body mock_decoder bad_frame_example = Again ?s1"
    unfolding underflow_body_def r0
    by (simp add: Let_def src_span_def size_t_sub_def mock_decoder_def bad_frame_example_def
          fresh_source_def)
  have d1: "after_iterations mock_decoder (Suc 0) bad_frame_example = Some ?s1"
    by (simp add: b0)
  have r1: "refill ?s1 = ?s1"
    by (simp add: refill_def)
  have sp1: "src_span ?s1 = [5]"
    by (simp add: src_span_def size_t_sub_def)
  have d2: "m_sourceBufferSize (refill ?s1) \<noteq> 0"
    unfolding r1 by simp
  have d3: "LZ4F_decompress mock_decoder (m_dctx (refill ?s1))
              (length (destinationBuffer (refill ?s1))) (src_span (refill ?s1))
            = Inl ''ERROR_blockHeader_invalid''"
    unfolding r1 sp1 by (simp add: mock_decoder_def)
  have "underflow mock_decoder bad_frame_example =
     Some (Inl (Runtime_error (''LZ4 decompression failed: '' @ ''ERROR_blockHeader_invalid''),
             (refill ?s1)\<lparr>dec_calls := dec_calls (refill ?s1) @ [src_span (refill ?s1)]\<rparr>))"
    using codec_errors_are_fatal [of mock_decoder "Suc 0" bad_frame_example ?s1
            "''ERROR_blockHeader_invalid''" mock_encoder 0 "[]" "[]" open_example 0 "[]" 0,
            THEN conjunct1] d1 d2 d3
    by blast
  then have w1: "underflow mock_decoder bad_frame_example =
     Some (Inl (Runtime_error ''LZ4 decompression failed: ERROR_blockHeader_invalid'',
                bad_frame_example\<lparr>reads := 1, sourceBuffer := [76, 5, 0, 0],
                  m_sourceBufferSize := 2, m_offset := 1, m_dctx := Tag,
                  dec_calls := [[76, 5], [5]]\<rparr>))"
    unfolding r1 sp1 by simp
  have b1: "LZ4F_createCompressionContext failing_begin_encoder = Inr 0
      \<and> LZ4F_compressBegin failing_begin_encoder 0 1 = Inl ''ERROR_allocation_failed''"
    by (simp add: failing_begin_encoder_def mock_encoder_def)
  have "output_buffer_ctor failing_begin_encoder [0, 0, 0, 0] [] =
       Inl (Runtime_error (''Failed to start LZ4 compression: '' @ ''ERROR_allocation_failed''),
            [], [Create, Begin])"
    using codec_errors_are_fatal [of mock_decoder 0 bad_frame_example bad_frame_example
            "''ERROR_allocation_failed''" failing_begin_encoder 0 "[0, 0, 0, 0]" "[]"
            open_example 0 "[]" 0, THEN conjunct2, THEN conjunct1] b1
    by blast
  then have w2: "output_buffer_ctor failing_begin_encoder [0, 0, 0, 0] [] =
       Inl (Runtime_error ''Failed to start LZ4 compression: ERROR_allocation_failed'',
            [], [Create, Begin])"
    by simp
  have u1: "\<not> m_closed open_example \<and> pptr open_example < 2 ^ 31
      \<and> LZ4F_compressUpdate failing_update_encoder (m_context open_example)
          (m_destinationBuffer_capacity open_example)
          (take (pptr open_example) (m_sourceBuffer open_example)) = Inl ''ERROR_GENERIC''"
    by (simp add: failing_update_encoder_def mock_encoder_def open_example_def)
  have "sync failing_update_encoder open_example =
          Inl (Runtime_error (''LZ4 compression failed: '' @ ''ERROR_GENERIC''),
               open_example\<lparr>pptr := 0, calls := calls open_example
                 @ [Update (take (pptr open_example) (m_sourceBuffer open_example))]\<rparr>)
        \<and> Close failing_update_encoder open_example =
          Inl (Runtime_error (''LZ4 compression failed: '' @ ''ERROR_GENERIC''),
               open_example\<lparr>pptr := 0, calls := calls open_example
                 @ [Update (take (pptr open_example) (m_sourceBuffer open_example))]\<rparr>)"
    using codec_errors_are_fatal [of mock_decoder 0 bad_frame_example bad_frame_example
            "''ERROR_GENERIC''" failing_update_encoder 0 "[]" "[]" open_example 0 "[]" 0,
            THEN conjunct2, THEN conjunct2, THEN conjunct1] u1
    by blast
  then have w3: "sync failing_update_encoder open_example =
       Inl (Runtime_error ''LZ4 compression failed: ERROR_GENERIC'',
            open_example\<lparr>calls := [Create, Begin, Update []]\<rparr>)
     \<and> Close failing_update_encoder open_example =
       Inl (Runtime_error ''LZ4 compression failed: ERROR_GENERIC'',
            open_example\<lparr>calls := [Create, Begin, Update []]\<rparr>)"
    by (simp add: open_example_def)
  let ?t = "open_example\<lparr>pptr := 3\<rparr>"
  have o1: "put_area_ok ?t \<and> pptr ?t = epptr ?t \<and> \<not> m_closed ?t
      \<and> LZ4F_compressUpdate failing_update_encoder (m_context ?t)
          (m_destinationBuffer_capacity ?t)
          (take (pptr ?t) (m_sourceBuffer ?t) @ [65]) = Inl ''ERROR_GENERIC''"
    by (simp add: failing_update_encoder_def mock_encoder_def open_example_def put_area_ok_def)
  have "sputc failing_update_encoder 65 ?t =
          Inl (Runtime_error (''LZ4 compression failed: '' @ ''ERROR_GENERIC''),
               ?t\<lparr>m_sourceBuffer := (m_sourceBuffer ?t)[pptr ?t := 65], pptr := 0,
                 calls := calls ?t @ [Update (take (pptr ?t) (m_sourceBuffer ?t) @ [65])]\<rparr>)"
    using codec_errors_are_fatal [of mock_decoder 0 bad_frame_example bad_frame_example
            "''ERROR_GENERIC''" failing_update_encoder 0 "[]" "[]" ?t 65 "[]" 0,
            THEN conjunct2, THEN conjunct2, THEN conjunct2, THEN conjunct1] o1
    by blast
  then have w4: "sputc failing_update_encoder 65 (open_example\<lparr>pptr := 3\<rparr>) =
       Inl (Runtime_error ''LZ4 compression failed: ERROR_GENERIC'',
            open_example\<lparr>m_sourceBuffer := [0, 0, 0, 65],
              calls := [Create, Begin, Update [0, 0, 0, 65]]\<rparr>)"
    by (simp add: open_example_def)
  have e1: "\<not> m_closed open_example \<and> pptr open_example < 2 ^ 31
      \<and> LZ4F_compressUpdate failing_end_encoder (m_context open_example)
          (m_destinationBuffer_capacity open_example)
          (take (pptr open_example) (m_sourceBuffer open_example)) = Inr ([], 1)
      \<and> LZ4F_compressEnd failing_end_encoder 1 (m_destinationBuffer_capacity open_example)
          = Inl ''ERROR_GENERIC''"
    by (simp add: failing_end_encoder_def mock_encoder_def open_example_def)
  have "Close failing_end_encoder open_example =
          Inl (Runtime_error (''Failed to end LZ4 compression: '' @ ''ERROR_GENERIC''),
               open_example\<lparr>pptr := 0,
                 calls := calls open_example
                   @ [Update (take (pptr open_example) (m_sourceBuffer open_example)), End],
                 m_context := 1, m_sink := m_sink open_example @ []\<rparr>)"
    using codec_errors_are_fatal [of mock_decoder 0 bad_frame_example bad_frame_example
            "''ERROR_GENERIC''" failing_end_encoder 0 "[]" "[]" open_example 0 "[]" 1,
            THEN conjunct2, THEN conjunct2, THEN conjunct2, THEN conjunct2] e1
    by blast
  then have w5: "Close failing_end_encoder open_example =
       Inl (Runtime_error ''Failed to end LZ4 compression: ERROR_GENERIC'',
            open_example\<lparr>calls := [Create, Begin, Update [], End], m_context := 1\<rparr>)"
    by (simp add: open_example_def)
  from w1 w2 w3 w4 w5 show ?thesis by blast
qed

section \<open>Reads after end-of-stream\<close>

text \<open>
  C6, as stated, fails. Over an upstream that holds nothing, the first read declares
  end-of-stream after one upstream read; the next read returns end-of-stream again, and
  has read from the upstream a second time.
\<close>

theorem eof_reads_upstream_again:
  "underflow mock_decoder (fresh_source (istream_of 4 [])) = Some (Inr (eof, exhausted_example))
   \<and> reads exhausted_example = 1
   \<and> underflow mock_decoder exhausted_example
       = Some (Inr (eof, exhausted_example\<lparr>reads := 2\<rparr>))
   \<and> reads (exhausted_example\<lparr>reads := 2\<rparr>) \<noteq> reads exhausted_example"
proof -
  have r0: "refill (fresh_source (istream_of 4 [])) = exhausted_example"
    by (simp add: refill_def Let_def exhausted_example_def fresh_source_def istream_of_def)
  have r1: "refill exhausted_example = exhausted_example\<lparr>reads := 2\<rparr>"
    by (simp add: refill_def Let_def exhausted_example_def fresh_source_def istream_of_def)
  have z0: "m_sourceBufferSize (refill (fresh_source (istream_of 4 []))) = 0"
    unfolding r0 by (simp add: exhausted_example_def fresh_source_def)
  have z1: "m_sourceBufferSize (refill exhausted_example) = 0"
    unfolding r1 by (simp add: exhausted_example_def fresh_source_def)
  have "underflow mock_decoder (fresh_source (istream_of 4 []))
          = Some (Inr (eof, exhausted_example))"
    by (simp add: underflow_def underflow_loop_exit [OF body_eof [OF z0]] r0)
  moreover have "underflow mock_decoder exhausted_example
          = Some (Inr (eof, exhausted_example\<lparr>reads := 2\<rparr>))"
    by (simp add: underflow_def underflow_loop_exit [OF body_eof [OF z1]] r1)
  ultimately show ?thesis
    by (simp add: exhausted_example_def fresh_source_def)
qed

text \<open>
  C6, amended. The iteration that declares end-of-stream, entered with the read offset
  not beyond the read limit, has just made an upstream read that returned no bytes and
  leaves the read offset and the read limit at zero. In such a state every read first
  issues one more read on the upstream source; when that read returns no bytes either,
  the read returns end-of-stream without a decoder call, and the adapter is as before
  but for the count of upstream reads, so the same holds for the read after it.
\<close>

theorem eof_then_one_more_read:
  "(underflow_body dec s0 = Exit (Return_eof s) \<and> m_offset s0 \<le> m_sourceBufferSize s0
     \<longrightarrow> reads s = Suc (reads s0) \<and> m_offset s = 0 \<and> m_sourceBufferSize s = 0
         \<and> take (length (sourceBuffer s0)) (m_source s0 (reads s0)) = [])
   \<and> (m_offset s = 0 \<and> m_sourceBufferSize s = 0
     \<longrightarrow> reads (iteration_state (underflow_body dec s)) = Suc (reads s)
         \<and> (take (length (sourceBuffer s)) (m_source s (reads s)) = []
             \<longrightarrow> underflow dec s = Some (Inr (eof, s\<lparr>reads := Suc (reads s)\<rparr>))))"
proof (intro conjI impI)
  assume a: "underflow_body dec s0 = Exit (Return_eof s) \<and> m_offset s0 \<le> m_sourceBufferSize s0"
  have z: "m_sourceBufferSize (refill s0) = 0 \<and> s = refill s0"
  proof (cases "m_sourceBufferSize (refill s0) = 0")
    case True
    with a show ?thesis by (simp add: body_eof)
  next
    case False
    with a show ?thesis
      by (cases "LZ4F_decompress dec (m_dctx (refill s0))
                   (length (destinationBuffer (refill s0))) (src_span (refill s0))")
         (auto simp: body_error body_decoded Let_def split: if_splits)
  qed
  have rd: "m_offset s0 = m_sourceBufferSize s0"
  proof (rule ccontr)
    assume ne: "m_offset s0 \<noteq> m_sourceBufferSize s0"
    then have "refill s0 = s0" by (rule refill_pending)
    with z have "m_sourceBufferSize s0 = 0" by simp
    with a ne show False by simp
  qed
  from z rd have F: "reads s = Suc (reads s0) \<and> m_offset s = 0 \<and> m_sourceBufferSize s = 0
         \<and> take (length (sourceBuffer s0)) (m_source s0 (reads s0)) = []"
    by (auto simp: refill_def Let_def min_def split: if_splits)
  from F show "reads s = Suc (reads s0)" by simp
  from F show "m_offset s = 0" by simp
  from F show "m_sourceBufferSize s = 0" by simp
  from F show "take (length (sourceBuffer s0)) (m_source s0 (reads s0)) = []" by simp
next
  assume a: "m_offset s = 0 \<and> m_sourceBufferSize s = 0"
  let ?got = "take (length (sourceBuffer s)) (m_source s (reads s))"
  have r: "refill s = s\<lparr>reads := Suc (reads s),
              sourceBuffer := ?got @ drop (length ?got) (sourceBuffer s),
              m_sourceBufferSize := length ?got, m_offset := 0\<rparr>"
    using a by (simp add: refill_def Let_def)
  have rr: "reads (refill s) = Suc (reads s)"
    unfolding r by simp
  show "reads (iteration_state (underflow_body dec s)) = Suc (reads s)"
  proof (cases "m_sourceBufferSize (refill s) = 0")
    case True
    then show ?thesis by (simp add: body_eof rr)
  next
    case False
    show ?thesis
    proof (cases "LZ4F_decompress dec (m_dctx (refill s))
                   (length (destinationBuffer (refill s))) (src_span (refill s))")
      case (Inl name)
      show ?thesis by (simp add: body_error [OF False Inl] rr)
    next
      case (Inr res)
      obtain c out d where res: "res = (c, out, d)" by (cases res) auto
      show ?thesis by (simp add: body_decoded [OF False Inr [unfolded res]] Let_def rr)
    qed
  qed
next
  assume a: "m_offset s = 0 \<and> m_sourceBufferSize s = 0"
    and e: "take (length (sourceBuffer s)) (m_source s (reads s)) = []"
  have r: "refill s = s\<lparr>reads := Suc (reads s)\<rparr>"
    using a by (simp add: refill_def Let_def e)
  have z: "m_sourceBufferSize (refill s) = 0"
    unfolding r using a by simp
  show "underflow dec s = Some (Inr (eof, s\<lparr>reads := Suc (reads s)\<rparr>))"
    by (simp add: underflow_def underflow_loop_exit [OF body_eof [OF z]] r)
qed

theorem eof_then_one_more_read_witness:
  "underflow_body mock_decoder (fresh_source (istream_of 4 [])) = Exit (Return_eof exhausted_example)
   \<and> m_offset (fresh_source (istream_of 4 [])) \<le> m_sourceBufferSize (fresh_source (istream_of 4 []))
   \<and> m_offset exhausted_example = 0 \<and> m_sourceBufferSize exhausted_example = 0
   \<and> take (length (sourceBuffer exhausted_example))
        (m_source exhausted_example (reads exhausted_example)) = []
   \<and> reads exhausted_example = Suc (reads (fresh_source (istream_of 4 [])))
   \<and> reads (iteration_state (underflow_body mock_decoder exhausted_example))
        = Suc (reads exhausted_example)
   \<and> underflow mock_decoder exhausted_example
        = Some (Inr (eof, exhausted_example\<lparr>reads := Suc (reads exhausted_example)\<rparr>))"
proof -
  let ?s0 = "fresh_source (istream_of 4 [])"
  have r0: "refill ?s0 = exhausted_example"
    by (simp add: refill_def Let_def exhausted_example_def fresh_source_def istream_of_def)
  have z0: "m_sourceBufferSize (refill ?s0) = 0"
    unfolding r0 by (simp add: exhausted_example_def fresh_source_def)
  have h1: "underflow_body mock_decoder ?s0 = Exit (Return_eof exhausted_example)
      \<and> m_offset ?s0 \<le> m_sourceBufferSize ?s0"
    using body_eof [OF z0, of mock_decoder] r0 by (simp add: fresh_source_def)
  have h2: "m_offset exhausted_example = 0 \<and> m_sourceBufferSize exhausted_example = 0"
    by (simp add: exhausted_example_def fresh_source_def)
  have h3: "take (length (sourceBuffer exhausted_example))
        (m_source exhausted_example (reads exhausted_example)) = []"
    by (simp add: exhausted_example_def fresh_source_def istream_of_def)
  note T = eof_then_one_more_read [of mock_decoder ?s0 exhausted_example]
  from T h1 have c1: "reads exhausted_example = Suc (reads ?s0)" by blast
  from T h2 have c2: "reads (iteration_state (underflow_body mock_decoder exhausted_example))
        = Suc (reads exhausted_example)" by blast
  from T h2 h3 have c3: "underflow mock_decoder exhausted_example
        = Some (Inr (eof, exhausted_example\<lparr>reads := Suc (reads exhausted_example)\<rparr>))"
    by blast
  from h1 h2 h3 c1 c2 c3 show ?thesis by blast
qed

section \<open>Termination of the pull loop\<close>








section \<open>The round trip\<close>

subsection \<open>What the sink adapter hands to the encoder\<close>

lemma flushed_spans_concat: "concat (flushed_spans n q S) = q @ S"
  by (induction S arbitrary: q) simp_all

lemma flushed_spans_length:
  "length q < n \<Longrightarrow> \<forall>c \<in> set (flushed_spans n q S). length c \<le> n"
proof (induction S arbitrary: q)
  case Nil
  then show ?case by simp
next
  case (Cons a S)
  show ?case
  proof (cases "Suc (length q) < n")
    case True
    then have "length (q @ [a]) < n" by simp
    from Cons.IH [OF this] True show ?thesis by simp
  next
    case False
    from Cons.prems have "length ([] :: byte list) < n" by simp
    from Cons.IH [OF this] False Cons.prems show ?thesis by simp
  qed
qed

lemma sputn_spans:
  assumes "put_area_ok s" and "\<not> m_closed s"
    and "encode_updates enc (m_destinationBuffer_capacity s) (m_context s)
           (flushed_spans (length (m_sourceBuffer s)) (take (pptr s) (m_sourceBuffer s)) S)
         = Inr (out, e)"
  shows "\<exists>s1 s2. sputn enc S s = Inr s1 \<and> CompressAndWrite enc s1 = Inr s2
           \<and> m_sink s2 = m_sink s @ out \<and> m_context s2 = e \<and> \<not> m_closed s2
           \<and> m_destinationBuffer_capacity s2 = m_destinationBuffer_capacity s"
  using assms
proof (induction S arbitrary: s out)
  case Nil
  have p: "pptr s < 2 ^ 31"
    using Nil.prems(1) by (auto simp: put_area_ok_def)
  from Nil.prems(3) obtain o1 where
    u: "LZ4F_compressUpdate enc (m_context s) (m_destinationBuffer_capacity s)
          (take (pptr s) (m_sourceBuffer s)) = Inr (o1, e)" and o: "out = o1"
    by (auto split: sum.splits prod.splits)
  show ?case
    using u o Nil.prems(2) by (simp add: CompressAndWrite_open [OF Nil.prems(2) p])
next
  case (Cons c cs)
  let ?n = "length (m_sourceBuffer s)"
  let ?q = "take (pptr s) (m_sourceBuffer s)"
  have ok: "0 < ?n" "?n < 2 ^ 31" "epptr s = ?n - 1" "pptr s \<le> epptr s"
    using Cons.prems(1) by (simp_all add: put_area_ok_def)
  have lq: "length ?q = pptr s"
    using ok by simp
  show ?case
  proof (cases "pptr s < epptr s")
    case True
    let ?s1 = "s\<lparr>m_sourceBuffer := (m_sourceBuffer s)[pptr s := c], pptr := Suc (pptr s)\<rparr>"
    have step: "sputc enc c s = Inr (to_int_type c, ?s1)"
      using True by (rule sputc_room)
    have ok1: "put_area_ok ?s1" "\<not> m_closed ?s1"
      using ok True Cons.prems(2) by (simp_all add: put_area_ok_def)
    have q1: "take (pptr ?s1) (m_sourceBuffer ?s1) = ?q @ [c]"
      using ok True by (simp add: take_Suc_conv_app_nth)
    have "Suc (length ?q) < ?n"
      unfolding lq using True ok(3) by arith
    then have sp: "flushed_spans ?n ?q (c # cs) = flushed_spans ?n (?q @ [c]) cs"
      by (simp only: flushed_spans.simps if_True)
    have "encode_updates enc (m_destinationBuffer_capacity ?s1) (m_context ?s1)
           (flushed_spans (length (m_sourceBuffer ?s1))
              (take (pptr ?s1) (m_sourceBuffer ?s1)) cs) = Inr (out, e)"
      using Cons.prems(3) unfolding q1 sp by simp
    from Cons.IH [OF ok1 this] obtain s2 s3 where
      "sputn enc cs ?s1 = Inr s2" "CompressAndWrite enc s2 = Inr s3"
      "m_sink s3 = m_sink ?s1 @ out" "m_context s3 = e" "\<not> m_closed s3"
      "m_destinationBuffer_capacity s3 = m_destinationBuffer_capacity ?s1"
      by blast
    then show ?thesis
      using step by (simp add: to_int_type_not_eof)
  next
    case False
    then have full: "pptr s = epptr s" using ok by simp
    have "\<not> Suc (length ?q) < ?n"
      unfolding lq using full ok(1,3) by arith
    then have sp: "flushed_spans ?n ?q (c # cs) = (?q @ [c]) # flushed_spans ?n [] cs"
      by (simp only: flushed_spans.simps if_False)
    from Cons.prems(3) [unfolded sp] obtain o1 e1 o2 where
      u: "LZ4F_compressUpdate enc (m_context s) (m_destinationBuffer_capacity s) (?q @ [c])
            = Inr (o1, e1)"
      and rest: "encode_updates enc (m_destinationBuffer_capacity s) e1
                   (flushed_spans ?n [] cs) = Inr (o2, e)"
      and out: "out = o1 @ o2"
      by (auto split: sum.splits prod.splits)
    let ?s1 = "s\<lparr>m_sourceBuffer := (m_sourceBuffer s)[pptr s := c], pptr := 0,
                 calls := calls s @ [Update (?q @ [c])],
                 m_context := e1, m_sink := m_sink s @ o1\<rparr>"
    have step: "sputc enc c s = Inr (to_int_type c, ?s1)"
      unfolding sputc_full [OF Cons.prems(1) full Cons.prems(2)] u by simp
    have ok1: "put_area_ok ?s1" "\<not> m_closed ?s1"
      using ok Cons.prems(2) by (simp_all add: put_area_ok_def)
    have "encode_updates enc (m_destinationBuffer_capacity ?s1) (m_context ?s1)
           (flushed_spans (length (m_sourceBuffer ?s1))
              (take (pptr ?s1) (m_sourceBuffer ?s1)) cs) = Inr (o2, e)"
      using rest by simp
    from Cons.IH [OF ok1 this] obtain s2 s3 where
      "sputn enc cs ?s1 = Inr s2" "CompressAndWrite enc s2 = Inr s3"
      "m_sink s3 = m_sink ?s1 @ o2" "m_context s3 = e" "\<not> m_closed s3"
      "m_destinationBuffer_capacity s3 = m_destinationBuffer_capacity ?s1"
      by blast
    then show ?thesis
      using step out by (simp add: to_int_type_not_eof)
  qed
qed

text \<open>
  What the sink adapter appends to the sink is the frame that the encoder makes of
  these spans at destination capacity 1.
\<close>

lemma compress_all_frame:
  assumes "0 < length mem" and "length mem < 2 ^ 31"
    and "encode_frame enc 1 (flushed_spans (length mem) [] S) = Inr z"
  shows "compress_all enc mem sink S = Inr (sink @ z)"
proof -
  let ?cap = "1 :: nat"
  from assms(3) obtain e0 hdr e1 body e2 ftr e3 where
    cr: "LZ4F_createCompressionContext enc = Inr e0"
    and bg: "LZ4F_compressBegin enc e0 ?cap = Inr (hdr, e1)"
    and up: "encode_updates enc ?cap e1 (flushed_spans (length mem) [] S) = Inr (body, e2)"
    and en: "LZ4F_compressEnd enc e2 ?cap = Inr (ftr, e3)"
    and z: "z = hdr @ body @ ftr"
    by (auto simp: encode_frame_def split: sum.splits prod.splits)
  let ?s = "\<lparr>m_sink = sink @ hdr, m_sourceBuffer = mem, pptr = 0, epptr = length mem - 1,
             m_destinationBuffer_capacity = ?cap, m_context = e1, m_closed = False,
             calls = [Create, Begin]\<rparr>"
  have ctor: "output_buffer_ctor enc mem sink = Inr ?s"
    using cr bg by (simp add: output_buffer_ctor_def WriteHeader_def)
  have ok: "put_area_ok ?s" "\<not> m_closed ?s"
    using assms(1,2) by (simp_all add: put_area_ok_def)
  have "encode_updates enc (m_destinationBuffer_capacity ?s) (m_context ?s)
           (flushed_spans (length (m_sourceBuffer ?s)) (take (pptr ?s) (m_sourceBuffer ?s)) S)
         = Inr (body, e2)"
    using up by simp
  from sputn_spans [OF ok this] obtain s1 s2 where
    run: "sputn enc S ?s = Inr s1" and fl: "CompressAndWrite enc s1 = Inr s2"
    and s2: "m_sink s2 = m_sink ?s @ body" "m_context s2 = e2" "\<not> m_closed s2"
      "m_destinationBuffer_capacity s2 = m_destinationBuffer_capacity ?s"
    by blast
  have open1: "\<not> m_closed s1"
    using fl by (auto simp: CompressAndWrite_def split: if_splits)
  have "Close enc s1 = Inr (s2\<lparr>calls := calls s2 @ [End], m_context := e3,
                              m_sink := m_sink s2 @ ftr, calls := calls s2 @ [End, Free],
                              m_closed := True\<rparr>)"
    using open1 fl s2 en by (simp add: Close_def sync_def WriteFooter_def)
  then show ?thesis
    using ctor run s2 z by (simp add: compress_all_def)
qed

subsection \<open>What the source adapter gets out of the decoder\<close>

lemma istream_of_next:
  "take n (istream_of n zz r) @ drop (Suc r * n) zz = drop (r * n) zz"
proof -
  have "take n (drop (r * n) zz) @ drop n (drop (r * n) zz) = drop (r * n) zz"
    by (rule append_take_drop_id)
  then show ?thesis
    by (simp add: istream_of_def)
qed

lemma pull_inv_refill:
  assumes "pull_inv R m zz s z p"
  shows "pull_inv R m zz (refill s) z p"
proof (cases "m_offset s = m_sourceBufferSize s")
  case False
  then show ?thesis using assms by (simp add: refill_pending)
next
  case True
  let ?n = "length (sourceBuffer s)"
  define got where "got = take ?n (m_source s (reads s))"
  have gl: "length got \<le> ?n"
    by (simp add: got_def)
  have src: "m_source s = istream_of ?n zz" and z: "z = drop (reads s * ?n) zz"
    using assms True by (simp_all add: pull_inv_def src_span_def size_t_sub_def)
  have got: "got @ drop (Suc (reads s) * ?n) zz = z"
    unfolding src z got_def by (rule istream_of_next)
  have r: "refill s = s\<lparr>reads := Suc (reads s),
              sourceBuffer := got @ drop (length got) (sourceBuffer s),
              m_sourceBufferSize := length got, m_offset := 0\<rparr>"
    using True unfolding got_def by (simp add: refill_def Let_def)
  have len: "length (got @ drop (length got) (sourceBuffer s)) = ?n"
    using gl by simp
  have span: "src_span (refill s) = got"
    unfolding r by (simp add: src_span_def size_t_sub_def)
  have "z = src_span (refill s) @ drop (reads (refill s) * length (sourceBuffer (refill s))) zz"
    unfolding span unfolding r using got gl by simp
  moreover have "m_source (refill s) = istream_of (length (sourceBuffer (refill s))) zz"
    unfolding r using src gl by simp
  moreover have "0 < length (sourceBuffer (refill s))
      \<and> m_sourceBufferSize (refill s) \<le> length (sourceBuffer (refill s))
      \<and> m_offset (refill s) \<le> m_sourceBufferSize (refill s)
      \<and> length (destinationBuffer (refill s)) = m \<and> R (m_dctx (refill s)) z p"
    unfolding r using assms gl by (auto simp: pull_inv_def)
  ultimately show ?thesis
    by (simp add: pull_inv_def)
qed

lemma pull_inv_eof:
  assumes "pull_inv R m zz s z p" and "m_sourceBufferSize (refill s) = 0"
  shows "z = []"
proof (cases "m_offset s = m_sourceBufferSize s")
  case False
  then have "refill s = s" by (rule refill_pending)
  with assms False show ?thesis by (simp add: pull_inv_def)
next
  case True
  let ?n = "length (sourceBuffer s)"
  have src: "m_source s = istream_of ?n zz" and z: "z = drop (reads s * ?n) zz"
    and n: "0 < ?n"
    using assms(1) True by (simp_all add: pull_inv_def src_span_def size_t_sub_def)
  from assms(2) True have "length (take ?n (m_source s (reads s))) = 0"
    by (simp add: refill_def Let_def)
  then have "take ?n (m_source s (reads s)) = []"
    by (simp only: length_0_conv)
  then have "take ?n (drop (reads s * ?n) zz) = []"
    unfolding src by (simp add: istream_of_def)
  with n show ?thesis
    unfolding z by simp
qed

lemma pull_inv_span:
  assumes "pull_inv R m zz s z p" and "m_sourceBufferSize (refill s) \<noteq> 0"
  shows "src_span (refill s) \<noteq> []" and "prefix (src_span (refill s)) z"
    and "length (src_span (refill s)) = m_sourceBufferSize (refill s) - m_offset (refill s)"
    and "m_offset (refill s) \<le> m_sourceBufferSize (refill s)"
proof -
  note inv = pull_inv_refill [OF assms(1)]
  have ne: "m_offset (refill s) \<noteq> m_sourceBufferSize (refill s)"
    using assms(2) by (auto simp: refill_def Let_def)
  with inv have lt: "m_offset (refill s) < m_sourceBufferSize (refill s)"
    by (simp add: pull_inv_def)
  then show "m_offset (refill s) \<le> m_sourceBufferSize (refill s)" by simp
  from lt inv show len: "length (src_span (refill s))
      = m_sourceBufferSize (refill s) - m_offset (refill s)"
    by (auto simp: pull_inv_def src_span_def size_t_sub_def)
  with lt show "src_span (refill s) \<noteq> []" by auto
  from inv show "prefix (src_span (refill s)) z"
    by (simp add: pull_inv_def prefix_def)
qed

text \<open>The state after a decoder call that kept the contract.\<close>

lemma pull_inv_decoded:
  assumes inv: "pull_inv R m zz s z p" and size: "m_sourceBufferSize (refill s) \<noteq> 0"
    and c: "c \<le> length (src_span (refill s))" and out: "length out \<le> m"
    and R: "R d1 (drop c z) (drop (length out) p)"
  shows "pull_inv R m zz
           ((refill s)\<lparr>dec_calls := dec_calls (refill s) @ [src_span (refill s)], m_dctx := d1,
              destinationBuffer := out @ drop (length out) (destinationBuffer (refill s)),
              m_offset := m_offset (refill s) + c\<rparr>)
           (drop c z) (drop (length out) p)"
proof -
  let ?s1 = "refill s"
  note inv1 = pull_inv_refill [OF inv]
  note sp = pull_inv_span [OF inv size]
  have le: "m_offset ?s1 + c \<le> m_sourceBufferSize ?s1"
    using c sp(3,4) by simp
  have adv: "src_span (?s1\<lparr>m_offset := m_offset ?s1 + c\<rparr>) = drop c (src_span ?s1)"
    using le by (rule src_span_advance)
  have z: "z = src_span ?s1 @ drop (reads ?s1 * length (sourceBuffer ?s1)) zz"
    using inv1 by (simp add: pull_inv_def)
  have "drop c z = drop c (src_span ?s1) @ drop (reads ?s1 * length (sourceBuffer ?s1)) zz"
    using c by (subst z) simp
  then show ?thesis
    using inv1 le out R adv by (simp add: pull_inv_def src_span_def)
qed

lemma pull_loop_lossless:
  assumes step: "\<forall>d z p span. R d z p \<and> span \<noteq> [] \<and> prefix span z \<longrightarrow>
        (\<exists>c out d1. LZ4F_decompress dec d m span = Inr (c, out, d1)
               \<and> c \<le> length span \<and> length out \<le> m \<and> prefix out p
               \<and> (0 < c \<or> out \<noteq> []) \<and> R d1 (drop c z) (drop (length out) p))"
    and empty: "\<forall>d p. R d [] p \<longrightarrow> p = []"
    and inv: "pull_inv R m zz s z p"
  shows "(\<exists>s1. underflow_loop dec s = Some (Return_eof s1) \<and> p = [])
       \<or> (\<exists>k s1 z1. underflow_loop dec s = Some (Written k s1) \<and> 0 < k \<and> k \<le> length p
             \<and> k \<le> m \<and> take k (destinationBuffer s1) = take k p
             \<and> pull_inv R m zz s1 z1 (drop k p))"
  using inv
proof (induction "length z" arbitrary: s z rule: less_induct)
  case less
  note inv = less.prems
  show ?case
  proof (cases "m_sourceBufferSize (refill s) = 0")
    case True
    from pull_inv_eof [OF inv True] inv have "R (m_dctx s) [] p"
      by (simp add: pull_inv_def)
    then have "p = []" by (rule empty [rule_format])
    with underflow_loop_exit [OF body_eof [OF True], of dec] show ?thesis by blast
  next
    case False
    let ?s1 = "refill s"
    note inv1 = pull_inv_refill [OF inv]
    note sp = pull_inv_span [OF inv False]
    have R1: "R (m_dctx ?s1) z p" and m1: "length (destinationBuffer ?s1) = m"
      using inv1 unfolding pull_inv_def by blast+
    from step [rule_format, OF conjI [OF R1 conjI [OF sp(1) sp(2)]]] obtain c out d1 where
      call: "LZ4F_decompress dec (m_dctx ?s1) m (src_span ?s1) = Inr (c, out, d1)"
      and c: "c \<le> length (src_span ?s1)" and lo: "length out \<le> m"
      and pre: "prefix out p" and pr: "0 < c \<or> out \<noteq> []"
      and R3: "R d1 (drop c z) (drop (length out) p)"
      by blast
    let ?s3 = "?s1\<lparr>dec_calls := dec_calls ?s1 @ [src_span ?s1], m_dctx := d1,
                 destinationBuffer := out @ drop (length out) (destinationBuffer ?s1),
                 m_offset := m_offset ?s1 + c\<rparr>"
    have call1: "LZ4F_decompress dec (m_dctx ?s1) (length (destinationBuffer ?s1))
                   (src_span ?s1) = Inr (c, out, d1)"
      using call m1 by simp
    note body = body_decoded [OF False call1]
    have inv3: "pull_inv R m zz ?s3 (drop c z) (drop (length out) p)"
      using inv False c lo R3 by (rule pull_inv_decoded)
    show ?thesis
    proof (cases "out = []")
      case True
      from body True have b: "underflow_body dec s = Again ?s3"
        by (simp add: Let_def)
      from True pr have "0 < c" by simp
      moreover from sp(1,2) have "z \<noteq> []" by auto
      ultimately have "length (drop c z) < length z" by simp
      from less.hyps [OF this] inv3 True
      have "(\<exists>s1. underflow_loop dec ?s3 = Some (Return_eof s1) \<and> p = [])
         \<or> (\<exists>k s1 z1. underflow_loop dec ?s3 = Some (Written k s1) \<and> 0 < k \<and> k \<le> length p
             \<and> k \<le> m \<and> take k (destinationBuffer s1) = take k p
             \<and> pull_inv R m zz s1 z1 (drop k p))"
        by simp
      then show ?thesis
        unfolding underflow_loop_again [OF b] .
    next
      case False
      from body False have b: "underflow_body dec s = Exit (Written (length out) ?s3)"
        by (simp add: Let_def)
      from pre obtain rest where p: "p = out @ rest"
        by (auto simp: prefix_def)
      have "take (length out) (destinationBuffer ?s3) = take (length out) p"
        unfolding p by simp
      moreover have "length out \<le> length p" unfolding p by simp
      ultimately show ?thesis
        using underflow_loop_exit [OF b] False lo inv3 by blast
    qed
  qed
qed

subsection \<open>Reading to the end\<close>

lemma pull_inv_get_area:
  "pull_inv R m zz (s\<lparr>gptr := g, egptr := e\<rparr>) z p = pull_inv R m zz s z p"
  "pull_inv R m zz (s\<lparr>gptr := g\<rparr>) z p = pull_inv R m zz s z p"
  by (simp_all add: pull_inv_def src_span_def)

text \<open>The chars of the get area are taken one by one, without a call of \<^verbatim>\<open>underflow\<close>.\<close>

lemma read_to_end_drain:
  assumes "gptr s \<le> egptr s" and "egptr s \<le> length (destinationBuffer s)"
  shows "read_to_end dec s acc =
     read_to_end dec (s\<lparr>gptr := egptr s\<rparr>)
       (acc @ drop (gptr s) (take (egptr s) (destinationBuffer s)))"
  using assms
proof (induction "egptr s - gptr s" arbitrary: s acc)
  case 0
  then have e: "egptr s = gptr s" by simp
  then have "s\<lparr>gptr := egptr s\<rparr> = s" by simp
  then show ?case by (simp add: e)
next
  case (Suc k)
  let ?c = "destinationBuffer s ! gptr s"
  let ?s1 = "s\<lparr>gptr := Suc (gptr s)\<rparr>"
  have lt: "gptr s < egptr s" using Suc.hyps(2) by simp
  have one: "read_to_end dec s acc = read_to_end dec ?s1 (acc @ [?c])"
    using lt
    by (subst read_to_end.simps)
       (simp add: sbumpc_def to_int_type_not_eof to_char_type_inverse)
  have "k = egptr ?s1 - gptr ?s1" "gptr ?s1 \<le> egptr ?s1"
    "egptr ?s1 \<le> length (destinationBuffer ?s1)"
    using Suc.hyps(2) Suc.prems lt by simp_all
  from Suc.hyps(1) [OF this, of "acc @ [?c]"]
  have rest: "read_to_end dec ?s1 (acc @ [?c]) =
     read_to_end dec (s\<lparr>gptr := egptr s\<rparr>)
       (acc @ [?c] @ drop (Suc (gptr s)) (take (egptr s) (destinationBuffer s)))"
    by simp
  have "gptr s < length (take (egptr s) (destinationBuffer s))"
    using lt Suc.prems(2) by simp
  from Cons_nth_drop_Suc [OF this] lt
  have "drop (gptr s) (take (egptr s) (destinationBuffer s))
          = ?c # drop (Suc (gptr s)) (take (egptr s) (destinationBuffer s))"
    by simp
  with one rest show ?case by simp
qed

lemma read_to_end_lossless:
  assumes step: "\<forall>d z p span. R d z p \<and> span \<noteq> [] \<and> prefix span z \<longrightarrow>
        (\<exists>c out d1. LZ4F_decompress dec d m span = Inr (c, out, d1)
               \<and> c \<le> length span \<and> length out \<le> m \<and> prefix out p
               \<and> (0 < c \<or> out \<noteq> []) \<and> R d1 (drop c z) (drop (length out) p))"
    and empty: "\<forall>d p. R d [] p \<longrightarrow> p = []"
    and inv: "pull_inv R m zz s z p" and view: "gptr s = egptr s"
  shows "\<exists>s1. read_to_end dec s acc = Some (Inr (acc @ p, s1))"
  using inv view
proof (induction "length p" arbitrary: s z p acc rule: less_induct)
  case less
  note inv = less.prems(1) and view = less.prems(2)
  from pull_loop_lossless [where R = R and dec = dec and m = m, OF step empty inv]
  consider (eof) s1 where "underflow_loop dec s = Some (Return_eof s1)" "p = []"
    | (data) k s1 z1 where "underflow_loop dec s = Some (Written k s1)" "0 < k"
        "k \<le> length p" "k \<le> m" "take k (destinationBuffer s1) = take k p"
        "pull_inv R m zz s1 z1 (drop k p)"
    by blast
  then show ?case
  proof cases
    case eof
    have "sbumpc dec s = Some (Inr (eof, s1))"
      using view eof(1) by (simp add: sbumpc_def uflow_def underflow_def)
    then show ?thesis
      using eof(2) by (subst read_to_end.simps) simp
  next
    case data
    let ?s2 = "s1\<lparr>gptr := 0, egptr := k\<rparr>"
    let ?c = "destinationBuffer s1 ! 0"
    have m1: "length (destinationBuffer s1) = m"
      using data(6) by (simp add: pull_inv_def)
    have "sbumpc dec s = Some (Inr (to_int_type ?c, ?s2\<lparr>gptr := Suc 0\<rparr>))"
      using view data(1)
      by (simp add: sbumpc_def uflow_def underflow_def Let_def to_int_type_not_eof)
    then have one: "read_to_end dec s acc = read_to_end dec (?s2\<lparr>gptr := Suc 0\<rparr>) (acc @ [?c])"
      by (subst read_to_end.simps) (simp add: to_int_type_not_eof to_char_type_inverse)
    have "gptr (?s2\<lparr>gptr := Suc 0\<rparr>) \<le> egptr (?s2\<lparr>gptr := Suc 0\<rparr>)"
      "egptr (?s2\<lparr>gptr := Suc 0\<rparr>) \<le> length (destinationBuffer (?s2\<lparr>gptr := Suc 0\<rparr>))"
      using data(2,4) m1 by simp_all
    note drain = read_to_end_drain [OF this, of dec "acc @ [?c]"]
    have upd: "(?s2\<lparr>gptr := Suc 0\<rparr>)\<lparr>gptr := egptr (?s2\<lparr>gptr := Suc 0\<rparr>)\<rparr>
                 = s1\<lparr>gptr := k, egptr := k\<rparr>"
      by simp
    have rng: "drop (gptr (?s2\<lparr>gptr := Suc 0\<rparr>))
                 (take (egptr (?s2\<lparr>gptr := Suc 0\<rparr>))
                    (destinationBuffer (?s2\<lparr>gptr := Suc 0\<rparr>)))
               = drop (Suc 0) (take k (destinationBuffer s1))"
      by simp
    have two: "read_to_end dec (?s2\<lparr>gptr := Suc 0\<rparr>) (acc @ [?c]) =
       read_to_end dec (s1\<lparr>gptr := k, egptr := k\<rparr>)
         ((acc @ [?c]) @ drop (Suc 0) (take k (destinationBuffer s1)))"
      using drain unfolding upd rng .
    have "0 < length (take k (destinationBuffer s1))"
      using data(2,4) m1 by simp
    from Cons_nth_drop_Suc [OF this] data(2)
    have "[?c] @ drop (Suc 0) (take k (destinationBuffer s1)) = take k (destinationBuffer s1)"
      by simp
    then have three: "(acc @ [?c]) @ drop (Suc 0) (take k (destinationBuffer s1))
                        = acc @ take k p"
      using data(5) by simp
    have "length (drop k p) < length p"
      using data(2,3) by simp
    moreover have "pull_inv R m zz (s1\<lparr>gptr := k, egptr := k\<rparr>) z1 (drop k p)"
      using data(6) by (simp add: pull_inv_get_area)
    moreover have "gptr (s1\<lparr>gptr := k, egptr := k\<rparr>) = egptr (s1\<lparr>gptr := k, egptr := k\<rparr>)"
      by simp
    ultimately obtain s3 where
      "read_to_end dec (s1\<lparr>gptr := k, egptr := k\<rparr>) (acc @ take k p)
         = Some (Inr ((acc @ take k p) @ drop k p, s3))"
      using less.hyps by blast
    then have "read_to_end dec (s1\<lparr>gptr := k, egptr := k\<rparr>) (acc @ take k p)
         = Some (Inr (acc @ p, s3))"
      by simp
    then show ?thesis
      unfolding one two three by blast
  qed
qed

text \<open>
  The source adapter is right: of every frame that a lossless codec makes, it returns
  exactly the raw bytes, and it does return.
\<close>

lemma decompress_all_lossless:
  assumes "lossless_codec enc dec n (length dstmem) R"
    and "\<forall>c \<in> set cs. length c \<le> n" and "0 < length srcmem"
  shows "\<exists>z. encode_frame enc (LZ4F_compressBound enc n) cs = Inr z
           \<and> decompress_all dec srcmem dstmem z = Some (Inr (concat cs))"
proof -
  from assms(1,2) obtain z d0 where
    frame: "encode_frame enc (LZ4F_compressBound enc n) cs = Inr z"
    and d0: "LZ4F_createDecompressionContext dec = Inr d0"
    and R0: "R d0 z (concat cs)"
    unfolding lossless_codec_def by blast
  have step: "\<forall>d z p span. R d z p \<and> span \<noteq> [] \<and> prefix span z \<longrightarrow>
        (\<exists>c out d1. LZ4F_decompress dec d (length dstmem) span = Inr (c, out, d1)
               \<and> c \<le> length span \<and> length out \<le> length dstmem \<and> prefix out p
               \<and> (0 < c \<or> out \<noteq> []) \<and> R d1 (drop c z) (drop (length out) p))"
    using assms(1) unfolding lossless_codec_def by (rule conjunct1 [OF conjunct2])
  have empty: "\<forall>d p. R d [] p \<longrightarrow> p = []"
    using assms(1) unfolding lossless_codec_def by (rule conjunct2 [OF conjunct2])
  let ?s0 = "\<lparr>m_source = istream_of (length srcmem) z, reads = 0, sourceBuffer = srcmem,
               destinationBuffer = dstmem, m_offset = 0, m_sourceBufferSize = 0,
               m_dctx = d0, gptr = 0, egptr = 0, dec_calls = []\<rparr>"
  have ctor: "input_buffer_ctor dec (istream_of (length srcmem) z) srcmem dstmem = Inr ?s0"
    using d0 by (simp add: input_buffer_ctor_def)
  have "pull_inv R (length dstmem) z ?s0 z (concat cs)"
    using R0 assms(3) by (simp add: pull_inv_def src_span_def size_t_sub_def)
  from read_to_end_lossless
         [where R = R and dec = dec and m = "length dstmem" and acc = "[]", OF step empty this]
  obtain s1 where "read_to_end dec ?s0 [] = Some (Inr (concat cs, s1))"
    by auto
  with ctor have "decompress_all dec srcmem dstmem z = Some (Inr (concat cs))"
    by (simp add: decompress_all_def)
  with frame show ?thesis by blast
qed

text \<open>
  So the law holds of the two adapters whenever the bound that the codec declares for
  the sink adapter's buffer is the capacity that the adapter really passes.
\<close>

lemma round_trip_if_bound_is_one:
  assumes "lossless_codec enc dec (length mem) (length dstmem) R"
    and "LZ4F_compressBound enc (length mem) = 1"
    and "0 < length mem" and "length mem < 2 ^ 31" and "0 < length srcmem"
  shows "\<exists>z. compress_all enc mem sink S = Inr (sink @ z)
           \<and> decompress_all dec srcmem dstmem z = Some (Inr S)"
proof -
  let ?cs = "flushed_spans (length mem) [] S"
  have "\<forall>c \<in> set ?cs. length c \<le> length mem"
    using assms(3) by (intro flushed_spans_length) simp
  from decompress_all_lossless [OF assms(1) this assms(5)] obtain z where
    frame: "encode_frame enc (LZ4F_compressBound enc (length mem)) ?cs = Inr z"
    and readback: "decompress_all dec srcmem dstmem z = Some (Inr (concat ?cs))"
    by blast
  from frame have "encode_frame enc 1 ?cs = Inr z"
    unfolding assms(2) .
  from compress_all_frame [OF assms(3,4) this]
  have "compress_all enc mem sink S = Inr (sink @ z)" .
  with readback show ?thesis
    by (auto simp: flushed_spans_concat)
qed

subsection \<open>The stand-in codec is lossless\<close>

lemma mock_encode_updates:
  "\<forall>c \<in> set cs. length c \<le> n \<Longrightarrow>
     encode_updates mock_encoder (2 * n + 2) e cs
       = Inr (concat (map (\<lambda>b. [1, b]) (concat cs)), e + length cs)"
  by (induction cs arbitrary: e) (simp_all add: mock_encoder_def)

lemma mock_encode_frame:
  "\<forall>c \<in> set cs. length c \<le> n \<Longrightarrow>
     encode_frame mock_encoder (LZ4F_compressBound mock_encoder n) cs
       = Inr (76 # mock_body (concat cs))"
proof -
  assume a: "\<forall>c \<in> set cs. length c \<le> n"
  have b: "LZ4F_compressBound mock_encoder n = 2 * n + 2"
    by (simp add: mock_encoder_def)
  show ?thesis
    unfolding encode_frame_def b mock_encode_updates [OF a]
    by (simp add: mock_encoder_def mock_body_def)
qed

lemma mock_body_not_empty: "mock_body p \<noteq> []"
  by (simp add: mock_body_def)

lemma mock_body_Cons: "mock_body (b # p) = 1 # b # mock_body p"
  by (simp add: mock_body_def)

lemma mock_body_Nil: "mock_body [] = [0]"
  by (simp add: mock_body_def)

lemma mock_step:
  assumes "mock_rel d z p" and "span \<noteq> []" and "prefix span z" and "0 < m"
  shows "\<exists>c out d1. mock_decompress d m span = Inr (c, out, d1)
           \<and> c \<le> length span \<and> length out \<le> m \<and> prefix out p
           \<and> (0 < c \<or> out \<noteq> []) \<and> mock_rel d1 (drop c z) (drop (length out) p)"
proof -
  from assms(2,3) obtain b bs zs where span: "span = b # bs" and z: "z = b # zs"
    by (cases span; cases z) auto
  show ?thesis
  proof (cases d)
    case Magic
    with assms(1) z have "b = 76" "zs = mock_body p" by simp_all
    then show ?thesis using Magic span z by simp
  next
    case Tag
    show ?thesis
    proof (cases p)
      case Nil
      with assms(1) Tag z have "b = 0" "zs = []" by (simp_all add: mock_body_Nil)
      then show ?thesis using Tag Nil span z by simp
    next
      case (Cons x p1)
      with assms(1) Tag z have "b = 1" "zs = x # mock_body p1" by (simp_all add: mock_body_Cons)
      then show ?thesis using Tag Cons span z by simp
    qed
  next
    case Data
    with assms(1) z obtain p1 where "p = b # p1" "zs = mock_body p1"
      by (cases p) simp_all
    then show ?thesis using Data span z assms(4) by simp
  next
    case Done
    with assms(1) z show ?thesis by simp
  qed
qed

lemma mock_rel_empty: "mock_rel d [] p \<Longrightarrow> p = []"
  by (cases d; cases p) (simp_all add: mock_body_not_empty mock_body_not_empty [symmetric])

lemma mock_lossless: "0 < m \<Longrightarrow> lossless_codec mock_encoder mock_decoder n m mock_rel"
  unfolding lossless_codec_def
proof (intro conjI allI impI)
  fix cs :: "byte list list"
  assume "\<forall>c \<in> set cs. length c \<le> n"
  from mock_encode_frame [OF this]
  show "\<exists>z d0. encode_frame mock_encoder (LZ4F_compressBound mock_encoder n) cs = Inr z
          \<and> LZ4F_createDecompressionContext mock_decoder = Inr d0 \<and> mock_rel d0 z (concat cs)"
    by (simp add: mock_decoder_def)
next
  fix d z p span
  assume m: "0 < m" and "mock_rel d z p \<and> span \<noteq> [] \<and> prefix span z"
  then have "mock_rel d z p" "span \<noteq> []" "prefix span z" by simp_all
  from mock_step [OF this m]
  show "\<exists>c out d1. LZ4F_decompress mock_decoder d m span = Inr (c, out, d1)
           \<and> c \<le> length span \<and> length out \<le> m \<and> prefix out p
           \<and> (0 < c \<or> out \<noteq> []) \<and> mock_rel d1 (drop c z) (drop (length out) p)"
    by (simp add: mock_decoder_def)
next
  fix d p
  assume "mock_rel d [] p"
  then show "p = []" by (rule mock_rel_empty)
qed

subsection \<open>The law\<close>

text \<open>
  C1. The law fails at the first flush of a non-empty span. The stand-in codec is
  lossless: at the capacity that \<^verbatim>\<open>LZ4F_compressBound\<close> declares for a buffer of four
  bytes it encodes the byte 65 into a frame, and the source adapter reads that frame
  back to 65. But the sink adapter passes the capacity 1 of its one-element vector, so
  when 65 is written and the adapter closed, the update reports that the destination
  is too small and \<^verbatim>\<open>Close\<close> throws: there is no frame to read back.
\<close>

theorem round_trip_broken_by_capacity:
  "compress_all mock_encoder [0, 0, 0, 0] [] [65]
     = Inl (Runtime_error ''LZ4 compression failed: ERROR_dstMaxSize_tooSmall'')
   \<and> encode_frame mock_encoder (LZ4F_compressBound mock_encoder 4) [[65]]
       = Inr [76, 1, 65, 0]
   \<and> decompress_all mock_decoder [0, 0, 0, 0] [0, 0] [76, 1, 65, 0] = Some (Inr [65])"
proof -
  have c: "compress_all mock_encoder [0, 0, 0, 0] [] [65]
     = Inl (Runtime_error ''LZ4 compression failed: ERROR_dstMaxSize_tooSmall'')"
    by (simp add: compress_all_def output_buffer_ctor_def WriteHeader_def mock_encoder_def
          sputc_def pbump_def to_int_type_def eof_def Close_def sync_def
          CompressAndWrite_def Let_def to_int32_def to_size_t_def)
  have f: "encode_frame mock_encoder (LZ4F_compressBound mock_encoder 4) [[65]]
       = Inr [76, 1, 65, 0]"
    by (simp add: encode_frame_def mock_encoder_def)
  have l: "lossless_codec mock_encoder mock_decoder 4 (length [0, 0 :: byte]) mock_rel"
    by (rule mock_lossless) simp
  have "\<forall>c \<in> set [[65 :: byte]]. length c \<le> 4" by simp
  from decompress_all_lossless [OF l this, of "[0, 0, 0, 0]"] f
  have "decompress_all mock_decoder [0, 0, 0, 0] [0, 0] [76, 1, 65, 0] = Some (Inr [65])"
    by simp
  with c f show ?thesis by blast
qed

end
